theory Spec2Isabelle
  imports Complex_Main "HOL-Library.Multiset"
begin

section \<open>Values, exceptions and the observable world\<close>

text \<open>
  The script \<^verbatim>\<open>scripts/tickets.py\<close> is Python 2 (\<^verbatim>\<open>print\<close> statement,
  \<^verbatim>\<open>iteritems\<close>). A count (\<^verbatim>\<open>issues.total\<close>) is an \<^typ>\<open>int\<close>. A field
  value, an estimate sum and a metric computed from them is a Python number, an integer or
  a finite float; it is represented by the rational number it denotes, \<open>NumV x\<close>. No
  arithmetic on these numbers is modelled: what the interpreter computes from them is taken
  from the runtime below. The float that is not a number is \<open>NaN\<close>.
\<close>

datatype pyval =
    IntV int
  | NumV rat
  | NaN
  | StrV string
  | NoneV

text \<open>
  The exceptions the script distinguishes. \<open>JIRAError status_code str response\<close> carries
  the \<^verbatim>\<open>status_code\<close> attribute, the text \<^verbatim>\<open>"%s" % exn\<close>, and the text
  \<^verbatim>\<open>"%s: %s" % (exn.response.status_code, exn.response.reason)\<close> that
  \<^verbatim>\<open>jira_login\<close> prints.
\<close>

datatype exn =
    JIRAError int string string
  | KeyError
  | AttributeError string
  | OtherError string

fun is_JIRAError :: "exn \<Rightarrow> bool" where
  "is_JIRAError (JIRAError c s r) = True"
| "is_JIRAError e = False"

text \<open>
  What a call can do: return a value, raise an exception that nobody has caught yet, or
  leave the process through \<^verbatim>\<open>exit(n)\<close>.
\<close>

datatype 'a outcome = Return 'a | Raise exn | Exit int

datatype max_results = MaxFalse | MaxInt int

datatype request =
    FilterRequest int
  | SearchRequest string max_results string
  | SprintsRequest int
  | EstimateRequest int int

type_synonym dict = "(string \<times> pyval) list"

datatype printed = RetrievedValues dict

record world =
  stderr :: "string list"
  stdout :: "printed list"
  requests :: "request list"
  writes :: "(string \<times> string \<times> pyval \<times> int) list"
  clock_reads :: nat

type_synonym 'a action = "world \<Rightarrow> 'a outcome \<times> world"

definition and_then :: "'a action \<Rightarrow> ('a \<Rightarrow> 'b action) \<Rightarrow> 'b action" where
  "and_then m f w =
     (case m w of
        (Return a, w') \<Rightarrow> f a w'
      | (Raise e, w') \<Rightarrow> (Raise e, w')
      | (Exit c, w') \<Rightarrow> (Exit c, w'))"

definition stderr_write :: "string \<Rightarrow> world \<Rightarrow> world" where
  "stderr_write s w = w\<lparr>stderr := stderr w @ [s]\<rparr>"

definition send :: "request \<Rightarrow> world \<Rightarrow> world" where
  "send r w = w\<lparr>requests := requests w @ [r]\<rparr>"

section \<open>The Python runtime\<close>

text \<open>
  The three operations on numbers the script uses, as the interpreter carries them out on
  Python integers and binary floating-point numbers: \<open>py_add rt x y\<close> is \<^verbatim>\<open>x + y\<close>,
  \<open>py_div rt x n\<close> is \<^verbatim>\<open>float(x) / n\<close> for the length \<open>n\<close> of a list, and
  \<open>py_round rt x n\<close> is \<^verbatim>\<open>round(x, n)\<close>. They are parameters of the model: which float
  a sum, a quotient or a rounding gives is the interpreter's business, not the script's.
\<close>

record runtime =
  py_add :: "rat \<Rightarrow> rat \<Rightarrow> rat"
  py_div :: "rat \<Rightarrow> nat \<Rightarrow> rat"
  py_round :: "rat \<Rightarrow> nat \<Rightarrow> rat"

section \<open>The tracker\<close>

record issue =
  key :: string
  issue_fields :: "string \<rightharpoonup> rat option"

record result_list =
  issues :: "issue list"
  total :: int

record sprint =
  id_of_sprint :: int
  name :: string
  state :: string

text \<open>
  The client object \<^verbatim>\<open>jira\<close>: what each of the four operations the script uses answers.
  \<open>filter_jql j n\<close> is \<^verbatim>\<open>getattr(jira.filter(n), 'jql')\<close>.
\<close>

record jira =
  filter_jql :: "int \<Rightarrow> exn + string"
  search_issues :: "string \<Rightarrow> max_results \<Rightarrow> string \<Rightarrow> exn + result_list"
  sprints :: "int \<Rightarrow> exn + sprint list"
  completedIssuesEstimateSum :: "int \<Rightarrow> int \<Rightarrow> exn + rat"

section \<open>Constants of the script\<close>

definition DB_URI :: string where
  "DB_URI = ''http://localhost:8086/write?db=inforad''"

definition JIRA_ENDPOINT :: string where
  "JIRA_ENDPOINT = ''https://issues.citrite.net''"

definition COUNT_QUERIES :: "(string \<times> int) list" where
  "COUNT_QUERIES =
     [(''dc_inbox'', 47168),
      (''CA,priority=Blocker'', 47165),
      (''CA,priority=Critical'', 47166),
      (''CA,priority=Major'', 47167),
      (''CA,priority=MinorAndTrivial'', 47876),
      (''CA,priority=Non-bug'', 48477),
      (''CA,workflow=Blocked'', 52664),
      (''SCTX'', 47170),
      (''XOP'', 47169),
      (''PAR'', 47171),
      (''Hotlist'', 47531),
      (''Staging'', 48797),
      (''FalconMustFix'', 57062)]"

definition QRF_DB_KEY :: string where "QRF_DB_KEY = ''CA,priority=QRF''"
definition QRF_JIRA_FILTER :: int where "QRF_JIRA_FILTER = 47875"

definition BACKLOG_DEPTH_DB_KEY :: string where "BACKLOG_DEPTH_DB_KEY = ''backlog_depth''"
definition BACKLOG_DEPTH_JIRA_FILTER :: int where "BACKLOG_DEPTH_JIRA_FILTER = 50374"

definition SPRINT_BURNDOWN_DB_KEY :: string where "SPRINT_BURNDOWN_DB_KEY = ''sprint_burndown''"
definition SPRINT_BURNDOWN_JIRA_FILTER :: int where "SPRINT_BURNDOWN_JIRA_FILTER = 50375"

definition SPRINT_VELOCITY_DB_KEY :: string where "SPRINT_VELOCITY_DB_KEY = ''sprint_velocity''"
definition SPRINT_BOARD_ID :: int where "SPRINT_BOARD_ID = 70"

definition KEY_FIELD :: string where "KEY_FIELD = ''key''"
definition DRV_FIELD :: string where "DRV_FIELD = ''customfield_18131''"
definition STORY_POINTS_FIELD :: string where "STORY_POINTS_FIELD = ''customfield_11332''"

section \<open>Patterns\<close>

text \<open>
  A compiled pattern of the \<^verbatim>\<open>re\<close> module, as far as the script needs one: a sequence of
  items, each the start anchor \<^verbatim>\<open>^\<close>, one character of a class, or one or more
  characters of a class. Without flags a literal matches its own character only (case
  matters), \<^verbatim>\<open>\s\<close> is one of space, tab, newline, carriage return, form feed and
  vertical tab, and \<^verbatim>\<open>.\<close> is any character but newline.
\<close>

datatype cclass = Lit char | Whitespace | Dot

datatype item = Bol | One cclass | OneOrMore cclass

type_synonym pattern = "item list"

fun in_class :: "cclass \<Rightarrow> char \<Rightarrow> bool" where
  "in_class (Lit c) x = (x = c)"
| "in_class Whitespace x =
     (x \<in> set [CHR '' '', CHR 0x09, CHR 0x0A, CHR 0x0D, CHR 0x0C, CHR 0x0B])"
| "in_class Dot x = (x \<noteq> CHR 0x0A)"

text \<open>
  \<open>match_from p at_start s\<close>: some prefix of \<open>s\<close> matches \<open>p\<close>; \<open>at_start\<close> says whether
  \<open>s\<close> is the whole subject string. \<^verbatim>\<open>re.match(p, s)\<close> tries position 0 only.
\<close>

fun match_from :: "pattern \<Rightarrow> bool \<Rightarrow> string \<Rightarrow> bool" where
  "match_from [] at_start s = True"
| "match_from (Bol # p) at_start s = (at_start \<and> match_from p at_start s)"
| "match_from (One c # p) at_start [] = False"
| "match_from (One c # p) at_start (x # s) = (in_class c x \<and> match_from p False s)"
| "match_from (OneOrMore c # p) at_start [] = False"
| "match_from (OneOrMore c # p) at_start (x # s) =
     (in_class c x \<and> (match_from (OneOrMore c # p) False s \<or> match_from p False s))"

definition re_match :: "pattern \<Rightarrow> string \<Rightarrow> bool" where
  "re_match p s = match_from p True s"

text \<open>\<^verbatim>\<open>SPRINT_REGEX = r"^xs-ring3\s.+"\<close>\<close>

definition SPRINT_REGEX :: pattern where
  "SPRINT_REGEX = Bol # map (One \<circ> Lit) ''xs-ring3'' @ [One Whitespace, OneOrMore Dot]"

section \<open>Issue queries\<close>

text \<open>\<^verbatim>\<open>",".join(fields)\<close>\<close>

fun join :: "string \<Rightarrow> string list \<Rightarrow> string" where
  "join sep [] = []"
| "join sep [x] = x"
| "join sep (x # y # ys) = x @ sep @ join sep (y # ys)"

text \<open>
  The handler of \<^verbatim>\<open>retrieve_issues\<close>: a \<^verbatim>\<open>JIRAError\<close> is reported and ends the process
  with status 3; any other exception is not caught.
\<close>

fun retrieve_issues_except :: "exn \<Rightarrow> 'a action" where
  "retrieve_issues_except (JIRAError c s r) w =
     (Exit 3, stderr_write (''error: Connection to JIRA failed: '' @ s @ [CHR 0x0A]) w)"
| "retrieve_issues_except e w = (Raise e, w)"

definition retrieve_issues :: "jira \<Rightarrow> int \<Rightarrow> string list \<Rightarrow> int option \<Rightarrow> result_list action" where
  "retrieve_issues j filter_id flds limit w =
     (let max_results = (case limit of None \<Rightarrow> MaxFalse | Some n \<Rightarrow> MaxInt n);
          flds' = join '','' flds;
          w1 = send (FilterRequest filter_id) w
      in case filter_jql j filter_id of
           Inl e \<Rightarrow> retrieve_issues_except e w1
         | Inr jql \<Rightarrow>
             (let w2 = send (SearchRequest jql max_results flds') w1
              in case search_issues j jql max_results flds' of
                   Inl e \<Rightarrow> retrieve_issues_except e w2
                 | Inr r \<Rightarrow> (Return r, w2)))"

definition retrieve_issue_count :: "jira \<Rightarrow> int \<Rightarrow> int action" where
  "retrieve_issue_count j jira_filter =
     and_then (retrieve_issues j jira_filter [KEY_FIELD] (Some 1))
       (\<lambda>r w. (Return (total r), w))"

text \<open>
  \<^verbatim>\<open>[getattr(issue.fields, field) for issue in issues]\<close>: an issue whose \<^verbatim>\<open>fields\<close>
  object has no attribute of that name raises \<^verbatim>\<open>AttributeError\<close>; an attribute that is
  there holds a number or \<^verbatim>\<open>None\<close>.
\<close>

fun getattr_fields :: "issue list \<Rightarrow> string \<Rightarrow> exn + rat option list" where
  "getattr_fields [] field = Inr []"
| "getattr_fields (i # rest) field =
     (case issue_fields i field of
        None \<Rightarrow> Inl (AttributeError field)
      | Some f \<Rightarrow>
          (case getattr_fields rest field of
             Inl e \<Rightarrow> Inl e
           | Inr fs \<Rightarrow> Inr (f # fs)))"

text \<open>\<^verbatim>\<open>sum(xs)\<close> adds from the left, starting at 0.\<close>

definition py_sum :: "runtime \<Rightarrow> rat list \<Rightarrow> rat" where
  "py_sum rt xs = foldl (py_add rt) 0 xs"

definition retrieve_sum_of_field :: "runtime \<Rightarrow> jira \<Rightarrow> int \<Rightarrow> string \<Rightarrow> rat action" where
  "retrieve_sum_of_field rt j jira_filter field =
     and_then (retrieve_issues j jira_filter [field] None)
       (\<lambda>r w. case getattr_fields (issues r) field of
                 Inl e \<Rightarrow> (Raise e, w)
               | Inr fs \<Rightarrow> (Return (py_sum rt [the f. f \<leftarrow> fs, f \<noteq> None]), w))"

definition retrieve_qrf :: "runtime \<Rightarrow> jira \<Rightarrow> rat action" where
  "retrieve_qrf rt j =
     and_then (retrieve_sum_of_field rt j QRF_JIRA_FILTER DRV_FIELD)
       (\<lambda>qrf w. (Return (py_round rt qrf 3), w))"

definition retrieve_backlog_depth :: "runtime \<Rightarrow> jira \<Rightarrow> rat action" where
  "retrieve_backlog_depth rt j =
     and_then (retrieve_sum_of_field rt j BACKLOG_DEPTH_JIRA_FILTER STORY_POINTS_FIELD)
       (\<lambda>bkl_depth w. (Return (py_round rt bkl_depth 2), w))"

definition retrieve_sprint_burndown :: "runtime \<Rightarrow> jira \<Rightarrow> rat action" where
  "retrieve_sprint_burndown rt j =
     retrieve_sum_of_field rt j SPRINT_BURNDOWN_JIRA_FILTER STORY_POINTS_FIELD"

section \<open>Sprint velocity\<close>

text \<open>\<^verbatim>\<open>xs[0:n]\<close>: a negative bound counts from the end of the list.\<close>

definition slice_to :: "'a list \<Rightarrow> int \<Rightarrow> 'a list" where
  "slice_to xs n = (if 0 \<le> n then take (nat n) xs else take (length xs - nat (- n)) xs)"

text \<open>
  Lines 96 to 104: the name filter (skipped for \<^verbatim>\<open>None\<close> and for the empty pattern,
  both false in a condition), the state filter, and the \<open>window\<close> first sprints in
  descending identifier order. \<^verbatim>\<open>sorted(..., reverse=True)\<close> is stable: sprints of equal
  identifier keep their order, as \<^const>\<open>sort_key\<close> on the negated identifier does.
\<close>

definition latest_completed :: "pattern option \<Rightarrow> int \<Rightarrow> sprint list \<Rightarrow> sprint list" where
  "latest_completed sprint_regex window sps =
     (let sps' = (case sprint_regex of
                    None \<Rightarrow> sps
                  | Some p \<Rightarrow> if p = [] then sps else [s \<leftarrow> sps. re_match p (name s)]);
          completed = [s \<leftarrow> sps'. state s = ''CLOSED'']
      in slice_to (sort_key (\<lambda>s. - id_of_sprint s) completed) window)"

text \<open>
  Lines 106 to 111: one estimate request per selected sprint. A \<^verbatim>\<open>KeyError\<close> skips
  the sprint; any other exception leaves the loop.
\<close>

fun collect_vels :: "jira \<Rightarrow> int \<Rightarrow> sprint list \<Rightarrow> rat list \<Rightarrow> world \<Rightarrow> (exn + rat list) \<times> world" where
  "collect_vels j board_id [] vels w = (Inr vels, w)"
| "collect_vels j board_id (spr # rest) vels w =
     (let w1 = send (EstimateRequest board_id (id_of_sprint spr)) w
      in case completedIssuesEstimateSum j board_id (id_of_sprint spr) of
           Inr v \<Rightarrow> collect_vels j board_id rest (vels @ [v]) w1
         | Inl e \<Rightarrow> if e = KeyError then collect_vels j board_id rest vels w1
                    else (Inl e, w1))"

text \<open>
  Lines 113 and 114: \<^verbatim>\<open>round(float(sum(vels)) / len(vels), 1)\<close>, and for no value at all
  \<^verbatim>\<open>round(float('nan'), 1)\<close>, which is the float that is not a number.
\<close>

definition avg_v :: "runtime \<Rightarrow> rat list \<Rightarrow> pyval" where
  "avg_v rt vels =
     (if vels \<noteq> [] then NumV (py_round rt (py_div rt (py_sum rt vels) (length vels)) 1)
      else NaN)"

text \<open>
  The outer handler, lines 115 to 118: a \<^verbatim>\<open>JIRAError\<close> of status 403 gives the string,
  another \<^verbatim>\<open>JIRAError\<close> falls off the end of the function, which returns \<^verbatim>\<open>None\<close>;
  any other exception is not caught.
\<close>

fun retrieve_sprint_velocity_except :: "exn \<Rightarrow> pyval action" where
  "retrieve_sprint_velocity_except (JIRAError c s r) w =
     (if c = 403
      then (Return (StrV ''AUTH_ERROR''),
            stderr_write (''warn: Auth error in retrieve_sprint_velocity'' @ [CHR 0x0A]) w)
      else (Return NoneV, w))"
| "retrieve_sprint_velocity_except e w = (Raise e, w)"

definition retrieve_sprint_velocity ::
  "runtime \<Rightarrow> jira \<Rightarrow> int \<Rightarrow> pattern option \<Rightarrow> int \<Rightarrow> pyval action" where
  "retrieve_sprint_velocity rt j board_id sprint_regex window w =
     (let w1 = send (SprintsRequest board_id) w
      in case sprints j board_id of
           Inl e \<Rightarrow> retrieve_sprint_velocity_except e w1
         | Inr sps \<Rightarrow>
             (case collect_vels j board_id (latest_completed sprint_regex window sps) [] w1 of
                (Inl e, w2) \<Rightarrow> retrieve_sprint_velocity_except e w2
              | (Inr vels, w2) \<Rightarrow> (Return (avg_v rt vels), w2)))"

section \<open>Login and the run\<close>

text \<open>
  What the run takes from outside the script: the runtime, the constructor
  \<^verbatim>\<open>JIRA(...)\<close> of the client library, the password typed or piped in, the successive
  readings of
  \<^verbatim>\<open>time.time()\<close>, the order in which \<^verbatim>\<open>iteritems()\<close> walks each of the two
  dictionaries, and the writer \<^verbatim>\<open>db_write\<close> of the module \<^verbatim>\<open>common\<close>, which the run
  calls with \<^verbatim>\<open>(DB_URI, key, value, tstamp)\<close> and which returns, raises or exits.
\<close>

record env =
  python :: runtime
  JIRA :: "string \<Rightarrow> (string \<times> string) option \<Rightarrow> exn + jira"
  password :: string
  time_time :: "nat \<Rightarrow> rat"
  iteritems_queries :: "(string \<times> int) list \<Rightarrow> (string \<times> int) list"
  iteritems_values :: "dict \<Rightarrow> dict"
  db_write :: "string \<Rightarrow> string \<Rightarrow> pyval \<Rightarrow> int \<Rightarrow> unit outcome"

text \<open>The parsed command line: \<^verbatim>\<open>args.user\<close> and \<^verbatim>\<open>args.dry_run\<close>.\<close>

record args =
  user :: "string option"
  dry_run :: bool

definition jira_login :: "env \<Rightarrow> string \<Rightarrow> string option \<Rightarrow> jira action" where
  "jira_login ev endpoint usr w =
     (let basic_auth = (case usr of
                          None \<Rightarrow> None
                        | Some u \<Rightarrow> if u = [] then None else Some (u, password ev))
      in case JIRA ev endpoint basic_auth of
           Inr j \<Rightarrow> (Return j, w)
         | Inl e \<Rightarrow>
             if is_JIRAError e
             then (let w1 = stderr_write (''warn: Autentication to JIRA failed,''
                                            @ '' continuing unauthenticated'' @ [CHR 0x0A]) w
                   in case JIRA ev endpoint None of
                        Inr j \<Rightarrow> (Return j, w1)
                      | Inl (JIRAError c s r) \<Rightarrow>
                          (Exit 4, stderr_write (''Connection to JIRA failed: '' @ r @ [CHR 0x0A]) w1)
                      | Inl e' \<Rightarrow> (Raise e', w1))
             else (Raise e, w))"

text \<open>\<^verbatim>\<open>values[k] = v\<close>\<close>

definition setitem :: "dict \<Rightarrow> string \<Rightarrow> pyval \<Rightarrow> dict" where
  "setitem d k v = (if k \<in> fst ` set d then [(k', if k' = k then v else v'). (k', v') \<leftarrow> d] else d @ [(k, v)])"

text \<open>Lines 161 and 162, over the pairs in the order \<^verbatim>\<open>iteritems()\<close> gives them.\<close>

fun count_queries :: "jira \<Rightarrow> (string \<times> int) list \<Rightarrow> dict \<Rightarrow> dict action" where
  "count_queries j [] vals w = (Return vals, w)"
| "count_queries j ((db_key, jira_filter) # rest) vals w =
     (case retrieve_issue_count j jira_filter w of
        (Return n, w') \<Rightarrow> count_queries j rest (setitem vals db_key (IntV n)) w'
      | (Raise e, w') \<Rightarrow> (Raise e, w')
      | (Exit c, w') \<Rightarrow> (Exit c, w'))"

text \<open>\<^verbatim>\<open>int(x)\<close> of a float: towards zero.\<close>

definition py_int :: "rat \<Rightarrow> int" where
  "py_int x = (if 0 \<le> x then \<lfloor>x\<rfloor> else \<lceil>x\<rceil>)"

text \<open>Lines 174 and 175.\<close>

fun write_all :: "env \<Rightarrow> int \<Rightarrow> dict \<Rightarrow> unit action" where
  "write_all ev tstamp [] w = (Return (), w)"
| "write_all ev tstamp ((k, v) # rest) w =
     (let w1 = w\<lparr>writes := writes w @ [(DB_URI, k, v, tstamp)]\<rparr>
      in case db_write ev DB_URI k v tstamp of
           Return u \<Rightarrow> write_all ev tstamp rest w1
         | Raise e \<Rightarrow> (Raise e, w1)
         | Exit c \<Rightarrow> (Exit c, w1))"

text \<open>Lines 169 to 175, once the dictionary is complete.\<close>

definition report :: "env \<Rightarrow> args \<Rightarrow> dict \<Rightarrow> unit action" where
  "report ev ar vals w =
     (if dry_run ar
      then (Exit 0, w\<lparr>stdout := stdout w @ [RetrievedValues vals]\<rparr>)
      else (let tstamp = py_int (time_time ev (clock_reads w)) * 10 ^ 9;
                w1 = w\<lparr>clock_reads := Suc (clock_reads w)\<rparr>
            in write_all ev tstamp (iteritems_values ev vals) w1))"

text \<open>
  Lines 159 to 167 of \<^verbatim>\<open>main\<close>: the login and the dictionary \<^verbatim>\<open>values\<close>, filled with
  the counts and the four named metrics.
\<close>

definition collect_values :: "env \<Rightarrow> args \<Rightarrow> dict action" where
  "collect_values ev ar =
     and_then (jira_login ev JIRA_ENDPOINT (user ar)) (\<lambda>j.
     and_then (count_queries j (iteritems_queries ev COUNT_QUERIES) []) (\<lambda>v0.
     and_then (retrieve_qrf (python ev) j) (\<lambda>qrf.
     and_then (retrieve_backlog_depth (python ev) j) (\<lambda>bkl.
     and_then (retrieve_sprint_burndown (python ev) j) (\<lambda>brn.
     and_then (retrieve_sprint_velocity (python ev) j SPRINT_BOARD_ID (Some SPRINT_REGEX) 3)
       (\<lambda>vel w.
       (Return
          (setitem (setitem (setitem (setitem v0
             QRF_DB_KEY (NumV qrf))
             BACKLOG_DEPTH_DB_KEY (NumV bkl))
             SPRINT_BURNDOWN_DB_KEY (NumV brn))
             SPRINT_VELOCITY_DB_KEY vel), w)))))))"

text \<open>
  \<^verbatim>\<open>main\<close>, from the parsed arguments on. The line printed in a dry run is
  \<^verbatim>\<open>"---\nRetrieved the following values: %s" % values\<close>; the model keeps the
  dictionary it shows.
\<close>

definition main :: "env \<Rightarrow> args \<Rightarrow> unit action" where
  "main ev ar = and_then (collect_values ev ar) (report ev ar)"

section \<open>Reference notions and example inputs\<close>

text \<open>
  The sprints the velocity aggregator may choose from, in the words of the specification:
  those whose name matches the pattern, when one is supplied, and whose state is closed.
\<close>

definition eligible :: "pattern option \<Rightarrow> sprint list \<Rightarrow> sprint list" where
  "eligible sprint_regex sps =
     [s \<leftarrow> sps. (case sprint_regex of None \<Rightarrow> True | Some p \<Rightarrow> re_match p (name s))
                 \<and> state s = ''CLOSED'']"

definition mk_sprint :: "int \<Rightarrow> string \<Rightarrow> string \<Rightarrow> sprint" where
  "mk_sprint i n st = \<lparr>id_of_sprint = i, name = n, state = st\<rparr>"

text \<open>A board with closed, active and foreign sprints, listed in no particular order.\<close>

definition board_sprints :: "sprint list" where
  "board_sprints =
     [mk_sprint 7 ''xs-ring3 Sprint 7'' ''CLOSED'',
      mk_sprint 10 ''xs-ring3 Sprint 10'' ''CLOSED'',
      mk_sprint 11 ''xs-ring3 Sprint 11'' ''ACTIVE'',
      mk_sprint 12 ''other-team Sprint 12'' ''CLOSED'',
      mk_sprint 9 ''xs-ring3 Sprint 9'' ''CLOSED'',
      mk_sprint 6 ''xs-ring3 Sprint 6'' ''CLOSED'',
      mk_sprint 8 ''xs-ring3 Sprint 8'' ''CLOSED'']"



text \<open>
  A runtime for the example runs: exact addition and division, and rounding to the closest
  multiple of \<open>10\<^sup>-\<^sup>n\<close>. The numbers of the example runs are small binary fractions
  (5, 3, 5.5, 2.25, 20.5, 16.5 and their sums 8, 7.75, 37, and the mean 18.5): on them
  double arithmetic is exact, and every number that is rounded already is a multiple of
  the rounding unit, so the interpreter computes these same values.
\<close>

definition round_decimal :: "rat \<Rightarrow> nat \<Rightarrow> rat" where
  "round_decimal x n = sgn x * of_int \<lfloor>\<bar>x\<bar> * 10 ^ n + 1 / 2\<rfloor> / 10 ^ n"

definition exact :: runtime where
  "exact = \<lparr>py_add = (+), py_div = (\<lambda>x n. x / of_nat n), py_round = round_decimal\<rparr>"

text \<open>
  A tracker: filter 404 does not exist, filter 400 holds a query the search rejects, every
  other filter finds three issues, the second without a value; sprint 9 has no estimate.
\<close>

definition tracker :: jira where
  "tracker =
     \<lparr>filter_jql = (\<lambda>n. if n = 404 then Inl (JIRAError 404 ''no such filter'' ''404: Not Found'')
                          else if n = 400 then Inr ''bad jql''
                          else Inr ''project = CA''),
      search_issues = (\<lambda>q m f.
         if q = ''bad jql'' then Inl (JIRAError 400 ''bad query'' ''400: Bad Request'')
         else (let found =
                     (if f = DRV_FIELD
                      then [\<lparr>key = ''CA-1'', issue_fields = [f \<mapsto> Some (11 / 2)]\<rparr>,
                            \<lparr>key = ''CA-2'', issue_fields = [f \<mapsto> None]\<rparr>,
                            \<lparr>key = ''CA-3'', issue_fields = [f \<mapsto> Some (9 / 4)]\<rparr>]
                      else [\<lparr>key = ''CA-1'', issue_fields = [f \<mapsto> Some 5]\<rparr>,
                            \<lparr>key = ''CA-2'', issue_fields = [f \<mapsto> None]\<rparr>,
                            \<lparr>key = ''CA-3'', issue_fields = [f \<mapsto> Some 3]\<rparr>])
               in Inr \<lparr>issues = (case m of MaxFalse \<Rightarrow> found | MaxInt n \<Rightarrow> take (nat n) found),
                        total = 3\<rparr>)),
      sprints = (\<lambda>b. Inr board_sprints),
      completedIssuesEstimateSum =
        (\<lambda>b i. if i = 9 then Inl KeyError else Inr (of_int i * 2 + 1 / 2))\<rparr>"


definition world0 :: world where
  "world0 = \<lparr>stderr = [], stdout = [], requests = [], writes = [], clock_reads = 0\<rparr>"

text \<open>
  The estimate sums the loop collects from a list of sprints: one per sprint whose lookup
  returns, in the order of the list.
\<close>

definition vels_of :: "jira \<Rightarrow> int \<Rightarrow> sprint list \<Rightarrow> rat list" where
  "vels_of j board_id sel =
     concat (map (\<lambda>s. case completedIssuesEstimateSum j board_id (id_of_sprint s) of
                          Inr v \<Rightarrow> [v] | Inl e \<Rightarrow> []) sel)"

text \<open>
  An estimate lookup that returns a sum or raises the not-found error \<^verbatim>\<open>KeyError\<close>.
\<close>

definition found_or_missing :: "exn + rat \<Rightarrow> bool" where
  "found_or_missing x = (case x of Inr v \<Rightarrow> True | Inl e \<Rightarrow> e = KeyError)"


text \<open>
  An action that neither writes a metric, nor reads the clock, nor prints.
\<close>

definition silent :: "'a action \<Rightarrow> bool" where
  "silent m = (\<forall>w. writes (snd (m w)) = writes w \<and> clock_reads (snd (m w)) = clock_reads w
                    \<and> stdout (snd (m w)) = stdout w)"

text \<open>
  The surroundings of an example run: the login gives the client \<open>j\<close>, the clock reads
  1478268000.7 first, both dictionaries are walked backwards, every write succeeds.
\<close>

definition env_of :: "jira \<Rightarrow> env" where
  "env_of j =
     \<lparr>python = exact,
      JIRA = (\<lambda>endpoint auth. Inr j),
      password = [],
      time_time = (\<lambda>n. 14782680007 / 10 + of_nat n),
      iteritems_queries = rev,
      iteritems_values = rev,
      db_write = (\<lambda>uri k v t. Return ())\<rparr>"

text \<open>
  A command line without \<^verbatim>\<open>--user\<close>.
\<close>

definition args_of :: "bool \<Rightarrow> args" where
  "args_of d = \<lparr>user = None, dry_run = d\<rparr>"

text \<open>
  The tracker refuses to list the sprints of any board (status 403).
\<close>

definition sprints_denied :: jira where
  "sprints_denied = tracker\<lparr>sprints := (\<lambda>b. Inl (JIRAError 403 ''Forbidden'' ''403: Forbidden''))\<rparr>"

text \<open>
  The tracker fails to list the sprints of any board (status 500).
\<close>

definition sprints_failing :: jira where
  "sprints_failing = tracker\<lparr>sprints := (\<lambda>b. Inl (JIRAError 500 ''Server Error'' ''500: Server Error''))\<rparr>"


text \<open>
  A board of five closed sprints.
\<close>

definition five_closed :: jira where
  "five_closed = tracker\<lparr>sprints := (\<lambda>b.
      Inr [mk_sprint 8 ''Sprint 8'' ''CLOSED'', mk_sprint 6 ''Sprint 6'' ''CLOSED'',
           mk_sprint 10 ''Sprint 10'' ''CLOSED'', mk_sprint 9 ''Sprint 9'' ''CLOSED'',
           mk_sprint 7 ''Sprint 7'' ''CLOSED''])\<rparr>"

text \<open>
  The counts of an example run, in the order the table was walked.
\<close>

definition counted :: dict where
  "counted = map (\<lambda>(k, f). (k, IntV 3)) (rev COUNT_QUERIES)"

text \<open>
  The dictionary of an example run against \<^const>\<open>tracker\<close>.
\<close>

definition collected :: dict where
  "collected = counted @
     [(''CA,priority=QRF'', NumV (31 / 4)), (''backlog_depth'', NumV 8),
      (''sprint_burndown'', NumV 8), (''sprint_velocity'', NumV (37 / 2))]"

section \<open>Selection of the sprints\<close>

lemma re_match_Nil: "re_match [] s"
  by (simp add: re_match_def)

lemma latest_completed_eligible:
  "latest_completed re window sps =
     slice_to (sort_key (\<lambda>s. - id_of_sprint s) (eligible re sps)) window"
  by (cases re) (simp_all add: latest_completed_def eligible_def re_match_Nil)

lemma take_sorted_top:
  assumes "sorted (map f ys)" and "x \<in> set (take n ys)" and "y \<in> set (drop n ys)"
  shows "f x \<le> f y"
proof -
  have "sorted (map f (take n ys) @ map f (drop n ys))"
    using assms(1) by (metis append_take_drop_id map_append)
  then show ?thesis
    using assms(2,3) by (auto simp: sorted_append)
qed

lemma mset_take_rest: "mset ys - mset (take n ys) = mset (drop n ys)"
proof -
  have "mset ys = mset (take n ys) + mset (drop n ys)"
    by (metis append_take_drop_id mset_append)
  then show ?thesis by simp
qed

lemma latest_completed_top:
  assumes "0 \<le> window"
  shows "(let selected = latest_completed sprint_regex window sps;
              cands = eligible sprint_regex sps
          in (\<forall>s \<in> set selected. s \<in> set sps \<and> state s = ''CLOSED'' \<and>
                (case sprint_regex of None \<Rightarrow> True | Some p \<Rightarrow> re_match p (name s)))
           \<and> sorted (rev (map id_of_sprint selected))
           \<and> length selected = min (nat window) (length cands)
           \<and> mset selected \<subseteq># mset cands
           \<and> (\<forall>s \<in> set selected. \<forall>t \<in># mset cands - mset selected.
                 id_of_sprint t \<le> id_of_sprint s))"
proof -
  define ys where "ys = sort_key (\<lambda>s. - id_of_sprint s) (eligible sprint_regex sps)"
  have sel: "latest_completed sprint_regex window sps = take (nat window) ys"
    using assms by (simp add: latest_completed_eligible slice_to_def ys_def)
  have srt: "sorted (map (\<lambda>s. - id_of_sprint s) ys)"
    by (simp add: ys_def)
  have ms: "mset ys = mset (eligible sprint_regex sps)"
    by (simp add: ys_def)
  have st: "set ys = set (eligible sprint_regex sps)"
    by (simp add: ys_def)
  have a: "\<forall>s \<in> set (take (nat window) ys). s \<in> set sps \<and> state s = ''CLOSED'' \<and>
                (case sprint_regex of None \<Rightarrow> True | Some p \<Rightarrow> re_match p (name s))"
    using st by (auto simp: eligible_def dest!: in_set_takeD)
  have "sorted (map (\<lambda>s. - id_of_sprint s) (take (nat window) ys))"
    using srt by (simp add: take_map[symmetric] sorted_wrt_take)
  then have b: "sorted (rev (map id_of_sprint (take (nat window) ys)))"
    by (simp add: sorted_wrt_rev sorted_wrt_map)
  have c: "length (take (nat window) ys) = min (nat window) (length (eligible sprint_regex sps))"
    by (simp add: ys_def min.commute)
  have d: "mset (take (nat window) ys) \<subseteq># mset (eligible sprint_regex sps)"
    unfolding ms[symmetric] by (metis append_take_drop_id mset_append mset_subset_eq_add_left)
  have e: "\<forall>s \<in> set (take (nat window) ys).
             \<forall>t \<in># mset (eligible sprint_regex sps) - mset (take (nat window) ys).
               id_of_sprint t \<le> id_of_sprint s"
    unfolding ms[symmetric] mset_take_rest
    using take_sorted_top[OF srt] by fastforce
  show ?thesis
    unfolding Let_def sel using a b c d e by blast
qed

lemma match_from_One:
  "match_from (One c # p) b s = (\<exists>x t. s = x # t \<and> in_class c x \<and> match_from p False t)"
  by (cases s) auto

lemma match_from_OneOrMore_last:
  "match_from [OneOrMore c] b s = (\<exists>x t. s = x # t \<and> in_class c x)"
  by (cases s) auto

lemma match_from_lits:
  "match_from (map (\<lambda>a. One (Lit a)) l @ p) b s =
     (\<exists>t. s = l @ t \<and> match_from p (b \<and> l = []) t)"
proof (induction l arbitrary: b s)
  case Nil
  then show ?case by simp
next
  case (Cons a l)
  show ?case
    by (cases s) (auto simp: Cons.IH)
qed

lemma SPRINT_REGEX_iff:
  "re_match SPRINT_REGEX s =
     (\<exists>c d t. s = ''xs-ring3'' @ c # d # t \<and> in_class Whitespace c \<and> d \<noteq> CHR 0x0A)"
proof -
  have "re_match SPRINT_REGEX s =
          (\<exists>t. s = ''xs-ring3'' @ t \<and> match_from [One Whitespace, OneOrMore Dot] False t)"
    unfolding SPRINT_REGEX_def re_match_def match_from.simps(2) comp_def match_from_lits
    by simp
  also have "\<dots> = (\<exists>c d t. s = ''xs-ring3'' @ c # d # t \<and> in_class Whitespace c \<and> d \<noteq> CHR 0x0A)"
    unfolding match_from_One match_from_OneOrMore_last
    by (simp del: in_class.simps(2)) blast
  finally show ?thesis .
qed

lemma map_sort_key: "map f (sort_key f xs) = sort (map f xs)"
  by (rule properties_for_sort[symmetric]) simp_all

lemma ids_example:
  assumes "mset (map id_of_sprint sps) = mset [10, 9, 8, 7, 6]"
  shows "map id_of_sprint (sort_key (\<lambda>s. - id_of_sprint s) sps) = [10, 9, 8, 7, 6]"
proof -
  have "mset (map (\<lambda>s. - id_of_sprint s) sps) = image_mset uminus (mset (map id_of_sprint sps))"
    by (simp add: multiset.map_comp comp_def)
  also have "\<dots> = mset [-10, -9, -8, -7, -6]"
    using assms by simp
  finally have "sort (map (\<lambda>s. - id_of_sprint s) sps) = [-10, -9, -8, -7, -6]"
    by (intro properties_for_sort) simp_all
  then have "map (\<lambda>s. - id_of_sprint s) (sort_key (\<lambda>s. - id_of_sprint s) sps)
               = [-10, -9, -8, -7, -6]"
    by (simp add: map_sort_key)
  then have "map uminus (map (\<lambda>s. - id_of_sprint s) (sort_key (\<lambda>s. - id_of_sprint s) sps))
               = map uminus [-10, -9, -8, -7, -6]"
    by (rule arg_cong)
  then show ?thesis by (simp add: comp_def)
qed

section \<open>Issue counts and field sums\<close>

lemma and_then_Return: "m w = (Return a, w') \<Longrightarrow> and_then m f w = f a w'"
  by (simp add: and_then_def)

lemma and_then_Exit: "m w = (Exit c, w') \<Longrightarrow> and_then m f w = (Exit c, w')"
  by (simp add: and_then_def)

lemma and_then_Raise: "m w = (Raise e, w') \<Longrightarrow> and_then m f w = (Raise e, w')"
  by (simp add: and_then_def)

lemma retrieve_issues_Return:
  assumes "filter_jql j f = Inr q"
    and "search_issues j q (case lmt of None \<Rightarrow> MaxFalse | Some n \<Rightarrow> MaxInt n) (join '','' fl) = Inr r"
  shows "retrieve_issues j f fl lmt w =
           (Return r, w\<lparr>requests := requests w @
              [FilterRequest f,
               SearchRequest q (case lmt of None \<Rightarrow> MaxFalse | Some n \<Rightarrow> MaxInt n) (join '','' fl)]\<rparr>)"
  using assms by (simp add: retrieve_issues_def send_def)

lemma retrieve_issues_filter_JIRAError:
  assumes "filter_jql j f = Inl (JIRAError c s rs)"
  shows "retrieve_issues j f fl lmt w =
           (Exit 3, w\<lparr>requests := requests w @ [FilterRequest f],
                       stderr := stderr w @ [''error: Connection to JIRA failed: '' @ s @ [CHR 0x0A]]\<rparr>)"
  using assms by (simp add: retrieve_issues_def send_def stderr_write_def)

lemma retrieve_issues_search_JIRAError:
  assumes "filter_jql j f = Inr q"
    and "search_issues j q (case lmt of None \<Rightarrow> MaxFalse | Some n \<Rightarrow> MaxInt n) (join '','' fl)
           = Inl (JIRAError c s rs)"
  shows "retrieve_issues j f fl lmt w =
           (Exit 3, w\<lparr>requests := requests w @
              [FilterRequest f,
               SearchRequest q (case lmt of None \<Rightarrow> MaxFalse | Some n \<Rightarrow> MaxInt n) (join '','' fl)],
               stderr := stderr w @ [''error: Connection to JIRA failed: '' @ s @ [CHR 0x0A]]\<rparr>)"
  using assms by (simp add: retrieve_issues_def send_def stderr_write_def)

lemma requests_retrieve_issues:
  "\<exists>rest. requests (snd (retrieve_issues j f fl lmt w)) = requests w @ FilterRequest f # rest
      \<and> (rest = [] \<or> (\<exists>q. rest = [SearchRequest q (case lmt of None \<Rightarrow> MaxFalse | Some n \<Rightarrow> MaxInt n) (join '','' fl)]))"
proof (cases "filter_jql j f")
  case (Inl e)
  then show ?thesis
    by (cases e) (simp_all add: retrieve_issues_def send_def stderr_write_def)
next
  case (Inr q)
  show ?thesis
  proof (cases "search_issues j q (case lmt of None \<Rightarrow> MaxFalse | Some n \<Rightarrow> MaxInt n) (join '','' fl)")
    case (Inl e)
    then show ?thesis
      using Inr by (cases e) (simp_all add: retrieve_issues_def send_def stderr_write_def)
  next
    case (Inr r)
    then show ?thesis
      using \<open>filter_jql j f = Inr q\<close> by (simp add: retrieve_issues_def send_def)
  qed
qed

text \<open>
  C7. For every filter reference, the issue count aggregator asks for the filter and then
  searches its query with \<^verbatim>\<open>maxResults=1\<close> and the single field \<^verbatim>\<open>key\<close>, and returns the
  \<^verbatim>\<open>total\<close> the tracker reports; whatever happens, it issues at most that one search.
  When either call raises a \<^verbatim>\<open>JIRAError\<close> (the tracker cannot be reached, the filter is
  invalid), a diagnostic goes to the error stream and the process exits with status 3.
\<close>

theorem retrieve_issue_count_total:
  "(filter_jql j f = Inr q \<and> search_issues j q (MaxInt 1) ''key'' = Inr r \<longrightarrow>
      retrieve_issue_count j f w =
        (Return (total r),
         w\<lparr>requests := requests w @ [FilterRequest f, SearchRequest q (MaxInt 1) ''key'']\<rparr>))
   \<and> (\<exists>rest. requests (snd (retrieve_issue_count j f w)) = requests w @ FilterRequest f # rest
         \<and> (rest = [] \<or> (\<exists>q'. rest = [SearchRequest q' (MaxInt 1) ''key''])))
   \<and> (filter_jql j f = Inl (JIRAError c s rs) \<longrightarrow>
        retrieve_issue_count j f w =
          (Exit 3, w\<lparr>requests := requests w @ [FilterRequest f],
                      stderr := stderr w @ [''error: Connection to JIRA failed: '' @ s @ [CHR 0x0A]]\<rparr>))
   \<and> (filter_jql j f = Inr q \<and> search_issues j q (MaxInt 1) ''key'' = Inl (JIRAError c s rs) \<longrightarrow>
        retrieve_issue_count j f w =
          (Exit 3, w\<lparr>requests := requests w @ [FilterRequest f, SearchRequest q (MaxInt 1) ''key''],
                      stderr := stderr w @ [''error: Connection to JIRA failed: '' @ s @ [CHR 0x0A]]\<rparr>))"
proof -
  have ok: "retrieve_issue_count j f w =
        (Return (total r),
         w\<lparr>requests := requests w @ [FilterRequest f, SearchRequest q (MaxInt 1) ''key'']\<rparr>)"
    if "filter_jql j f = Inr q" "search_issues j q (MaxInt 1) ''key'' = Inr r"
    using retrieve_issues_Return[of j f q "Some 1" "[KEY_FIELD]" r w] that
    by (simp add: retrieve_issue_count_def KEY_FIELD_def and_then_def)
  have rq: "\<exists>rest. requests (snd (retrieve_issue_count j f w)) = requests w @ FilterRequest f # rest
         \<and> (rest = [] \<or> (\<exists>q'. rest = [SearchRequest q' (MaxInt 1) ''key'']))"
    using requests_retrieve_issues[of j f "[KEY_FIELD]" "Some 1" w]
    by (auto simp: retrieve_issue_count_def KEY_FIELD_def and_then_def split: prod.splits outcome.splits)
  have e1: "retrieve_issue_count j f w =
          (Exit 3, w\<lparr>requests := requests w @ [FilterRequest f],
                      stderr := stderr w @ [''error: Connection to JIRA failed: '' @ s @ [CHR 0x0A]]\<rparr>)"
    if "filter_jql j f = Inl (JIRAError c s rs)"
    using retrieve_issues_filter_JIRAError[OF that, of "[KEY_FIELD]" "Some 1" w]
    by (simp add: retrieve_issue_count_def and_then_def)
  have e2: "retrieve_issue_count j f w =
          (Exit 3, w\<lparr>requests := requests w @ [FilterRequest f, SearchRequest q (MaxInt 1) ''key''],
                      stderr := stderr w @ [''error: Connection to JIRA failed: '' @ s @ [CHR 0x0A]]\<rparr>)"
    if "filter_jql j f = Inr q" "search_issues j q (MaxInt 1) ''key'' = Inl (JIRAError c s rs)"
    using retrieve_issues_search_JIRAError[of j f q "Some 1" "[KEY_FIELD]" c s rs w] that
    by (simp add: retrieve_issue_count_def KEY_FIELD_def and_then_def)
  show ?thesis using ok rq e1 e2 by blast
qed

theorem retrieve_issue_count_total_witness:
  "filter_jql tracker 47168 = Inr ''project = CA''
   \<and> search_issues tracker ''project = CA'' (MaxInt 1) ''key''
        = Inr \<lparr>issues = [\<lparr>key = ''CA-1'', issue_fields = [''key'' \<mapsto> Some 5]\<rparr>], total = 3\<rparr>
   \<and> retrieve_issue_count tracker 47168 world0 =
        (Return 3, world0\<lparr>requests := [FilterRequest 47168,
                                         SearchRequest ''project = CA'' (MaxInt 1) ''key'']\<rparr>)
   \<and> filter_jql tracker 404 = Inl (JIRAError 404 ''no such filter'' ''404: Not Found'')
   \<and> retrieve_issue_count tracker 404 world0 =
        (Exit 3, world0\<lparr>requests := [FilterRequest 404],
           stderr := [''error: Connection to JIRA failed: no such filter'' @ [CHR 0x0A]]\<rparr>)
   \<and> filter_jql tracker 400 = Inr ''bad jql''
   \<and> search_issues tracker ''bad jql'' (MaxInt 1) ''key''
        = Inl (JIRAError 400 ''bad query'' ''400: Bad Request'')
   \<and> retrieve_issue_count tracker 400 world0 =
        (Exit 3, world0\<lparr>requests := [FilterRequest 400, SearchRequest ''bad jql'' (MaxInt 1) ''key''],
           stderr := [''error: Connection to JIRA failed: bad query'' @ [CHR 0x0A]]\<rparr>)"
proof -
  have f1: "filter_jql tracker 47168 = Inr ''project = CA''"
    and s1: "search_issues tracker ''project = CA'' (MaxInt 1) ''key''
        = Inr \<lparr>issues = [\<lparr>key = ''CA-1'', issue_fields = [''key'' \<mapsto> Some 5]\<rparr>], total = 3\<rparr>"
    and f2: "filter_jql tracker 404 = Inl (JIRAError 404 ''no such filter'' ''404: Not Found'')"
    and f3: "filter_jql tracker 400 = Inr ''bad jql''"
    and s3: "search_issues tracker ''bad jql'' (MaxInt 1) ''key''
        = Inl (JIRAError 400 ''bad query'' ''400: Bad Request'')"
    by (simp_all add: tracker_def DRV_FIELD_def)
  show ?thesis
    using retrieve_issue_count_total[of tracker 47168 "''project = CA''" _ world0]
      retrieve_issue_count_total[of tracker 404 _ _ world0 404 "''no such filter''" "''404: Not Found''"]
      retrieve_issue_count_total[of tracker 400 "''bad jql''" _ world0 400 "''bad query''" "''400: Bad Request''"]
      f1 s1 f2 f3 s3
    by (simp add: world0_def)
qed



lemma present_values:
  "[the f. f \<leftarrow> fs, f \<noteq> None] = concat (map (\<lambda>f. case f of None \<Rightarrow> [] | Some v \<Rightarrow> [v]) fs)"
  by (induction fs) auto








text \<open>
  The two rounded metrics: the deferred-resolution-value sum goes through
  \<^verbatim>\<open>round(x, 3)\<close>, the backlog depth through \<^verbatim>\<open>round(x, 2)\<close>.
\<close>

lemma rounding_digits:
  "retrieve_sum_of_field rt j QRF_JIRA_FILTER DRV_FIELD w = (Return total_drv, w') \<Longrightarrow>
     retrieve_qrf rt j w = (Return (py_round rt total_drv 3), w')"
  "retrieve_sum_of_field rt j BACKLOG_DEPTH_JIRA_FILTER STORY_POINTS_FIELD w = (Return total_sp, w') \<Longrightarrow>
     retrieve_backlog_depth rt j w = (Return (py_round rt total_sp 2), w')"
  by (simp_all add: retrieve_qrf_def retrieve_backlog_depth_def and_then_def)

section \<open>The velocity loop and its handler\<close>

lemma collect_vels_ok:
  "(\<forall>s \<in> set sel. found_or_missing (completedIssuesEstimateSum j b (id_of_sprint s))) \<Longrightarrow>
     collect_vels j b sel vels w =
       (Inr (vels @ vels_of j b sel),
        w\<lparr>requests := requests w @ map (\<lambda>s. EstimateRequest b (id_of_sprint s)) sel\<rparr>)"
proof (induction sel arbitrary: vels w)
  case Nil
  then show ?case by (simp add: vels_of_def)
next
  case (Cons s sel)
  then show ?case
    by (cases "completedIssuesEstimateSum j b (id_of_sprint s)")
       (simp_all add: vels_of_def send_def found_or_missing_def)
qed

lemma collect_vels_fst_world:
  "fst (collect_vels j b sel vels w) = fst (collect_vels j b sel vels w')"
proof (induction sel arbitrary: vels w w')
  case Nil
  then show ?case by simp
next
  case (Cons s sel)
  show ?case
  proof (cases "completedIssuesEstimateSum j b (id_of_sprint s)")
    case (Inl e)
    then show ?thesis
      using Cons.IH[of vels "send (EstimateRequest b (id_of_sprint s)) w"
                       "send (EstimateRequest b (id_of_sprint s)) w'"]
      by (simp add: Let_def)
  next
    case (Inr v)
    then show ?thesis
      using Cons.IH[of "vels @ [v]" "send (EstimateRequest b (id_of_sprint s)) w"
                       "send (EstimateRequest b (id_of_sprint s)) w'"]
      by simp
  qed
qed

lemma collect_vels_skip:
  assumes "completedIssuesEstimateSum j b (id_of_sprint s) = Inl KeyError"
  shows "fst (collect_vels j b (xs @ s # ys) vels w) = fst (collect_vels j b (xs @ ys) vels w)"
proof (induction xs arbitrary: vels w)
  case Nil
  show ?case
    using assms collect_vels_fst_world[of j b ys vels "send (EstimateRequest b (id_of_sprint s)) w" w]
    by simp
next
  case (Cons x xs)
  show ?case
    by (cases "completedIssuesEstimateSum j b (id_of_sprint x)") (simp_all add: Cons.IH Let_def)
qed

lemma except_fst_world:
  "fst (retrieve_sprint_velocity_except e w) = fst (retrieve_sprint_velocity_except e w')"
  by (cases e) simp_all

lemma retrieve_sprint_velocity_listed:
  assumes "sprints j b = Inr sps"
  shows "fst (retrieve_sprint_velocity rt j b re n w) =
           (case fst (collect_vels j b (latest_completed re n sps) [] w) of
              Inl e \<Rightarrow> fst (retrieve_sprint_velocity_except e w)
            | Inr vels \<Rightarrow> Return (avg_v rt vels))"
proof -
  obtain res w2 where c: "collect_vels j b (latest_completed re n sps) [] (send (SprintsRequest b) w) = (res, w2)"
    by (cases "collect_vels j b (latest_completed re n sps) [] (send (SprintsRequest b) w)") blast
  have "fst (collect_vels j b (latest_completed re n sps) [] w) = res"
    using collect_vels_fst_world[of j b "latest_completed re n sps" "[]" w "send (SprintsRequest b) w"] c
    by simp
  then show ?thesis
    using assms c except_fst_world[of _ w2 w]
    by (cases res) (simp_all add: retrieve_sprint_velocity_def)
qed

lemma retrieve_sprint_velocity_ok:
  assumes "sprints j b = Inr sps"
    and "\<forall>s \<in> set (latest_completed re n sps).
           found_or_missing (completedIssuesEstimateSum j b (id_of_sprint s))"
  shows "retrieve_sprint_velocity rt j b re n w =
           (Return (avg_v rt (vels_of j b (latest_completed re n sps))),
            w\<lparr>requests := requests w @ SprintsRequest b #
                 map (\<lambda>s. EstimateRequest b (id_of_sprint s)) (latest_completed re n sps)\<rparr>)"
  using assms(1) collect_vels_ok[OF assms(2), of "[]" "send (SprintsRequest b) w"]
  by (simp add: retrieve_sprint_velocity_def send_def)

lemma retrieve_sprint_velocity_403:
  assumes "sprints j b = Inl (JIRAError 403 s r)"
  shows "retrieve_sprint_velocity rt j b re n w =
           (Return (StrV ''AUTH_ERROR''),
            w\<lparr>requests := requests w @ [SprintsRequest b],
               stderr := stderr w @ [''warn: Auth error in retrieve_sprint_velocity'' @ [CHR 0x0A]]\<rparr>)"
  using assms by (simp add: retrieve_sprint_velocity_def send_def stderr_write_def)

lemma retrieve_sprint_velocity_not_403:
  assumes "sprints j b = Inl (JIRAError c s r)" and "c \<noteq> 403"
  shows "retrieve_sprint_velocity rt j b re n w =
           (Return NoneV, w\<lparr>requests := requests w @ [SprintsRequest b]\<rparr>)"
  using assms by (simp add: retrieve_sprint_velocity_def send_def)


lemma collect_vels_requests:
  "\<exists>k \<le> length sel.
     requests (snd (collect_vels j b sel vels w))
       = requests w @ map (\<lambda>s. EstimateRequest b (id_of_sprint s)) (take k sel)"
proof (induction sel arbitrary: vels w)
  case Nil
  then show ?case by simp
next
  case (Cons s sel)
  define w1 where "w1 = send (EstimateRequest b (id_of_sprint s)) w"
  have step: "\<exists>k \<le> length (s # sel).
       requests (snd (collect_vels j b sel vs w1))
         = requests w @ map (\<lambda>s. EstimateRequest b (id_of_sprint s)) (take k (s # sel))" for vs
  proof -
    obtain k where "k \<le> length sel"
      and "requests (snd (collect_vels j b sel vs w1))
             = requests w1 @ map (\<lambda>s. EstimateRequest b (id_of_sprint s)) (take k sel)"
      using Cons.IH[of vs w1] by blast
    then have "Suc k \<le> length (s # sel)
        \<and> requests (snd (collect_vels j b sel vs w1))
             = requests w @ map (\<lambda>s. EstimateRequest b (id_of_sprint s)) (take (Suc k) (s # sel))"
      by (simp add: w1_def send_def)
    then show ?thesis by blast
  qed
  have stop: "\<exists>k \<le> length (s # sel).
       requests w1 = requests w @ map (\<lambda>s. EstimateRequest b (id_of_sprint s)) (take k (s # sel))"
  proof -
    have "Suc 0 \<le> length (s # sel)
        \<and> requests w1 = requests w @ map (\<lambda>s. EstimateRequest b (id_of_sprint s)) (take (Suc 0) (s # sel))"
      by (simp add: w1_def send_def)
    then show ?thesis by blast
  qed
  show ?case
  proof (cases "completedIssuesEstimateSum j b (id_of_sprint s)")
    case (Inl e)
    then show ?thesis
      using step[of vels] stop by (simp add: w1_def[symmetric] Let_def)
  next
    case (Inr v)
    then show ?thesis
      using step[of "vels @ [v]"] by (simp add: w1_def[symmetric] Let_def)
  qed
qed

lemma except_requests:
  "requests (snd (retrieve_sprint_velocity_except e w)) = requests w"
  by (cases e) (simp_all add: stderr_write_def)

lemma retrieve_sprint_velocity_requests:
  assumes "sprints j b = Inr sps"
  shows "\<exists>k \<le> length (latest_completed re n sps).
           requests (snd (retrieve_sprint_velocity rt j b re n w))
             = requests w @ SprintsRequest b #
                 map (\<lambda>s. EstimateRequest b (id_of_sprint s)) (take k (latest_completed re n sps))"
proof -
  define sel where "sel = latest_completed re n sps"
  define w1 where "w1 = send (SprintsRequest b) w"
  obtain res w2 where c: "collect_vels j b sel [] w1 = (res, w2)"
    by (cases "collect_vels j b sel [] w1") blast
  obtain k where k: "k \<le> length sel"
    and r: "requests w2 = requests w1 @ map (\<lambda>s. EstimateRequest b (id_of_sprint s)) (take k sel)"
    using collect_vels_requests[of sel j b "[]" w1] c by auto
  have "requests (snd (retrieve_sprint_velocity rt j b re n w)) = requests w2"
    using assms c
    by (cases res) (simp_all add: retrieve_sprint_velocity_def sel_def w1_def except_requests)
  then have "requests (snd (retrieve_sprint_velocity rt j b re n w))
          = requests w @ SprintsRequest b #
              map (\<lambda>s. EstimateRequest b (id_of_sprint s)) (take k sel)"
    using r by (simp add: w1_def send_def)
  then show ?thesis using k unfolding sel_def by blast
qed

text \<open>
  C1. When the sprint list of the board is available and the window is \<open>N \<ge> 0\<close>, the
  estimate lookups the velocity aggregator issues after the listing are those of a list of
  selected sprints, in order, up to the first lookup that raises an error other than
  not-found, and of all of them when there is none; then the value returned is computed
  from their estimates. The selected sprints are sprints of the list that are closed and
  whose name matches the pattern when one is given; they come in descending identifier
  order; they are as many as the window allows (\<open>min N\<close> of the number of eligible
  sprints); each eligible sprint is selected at most as often as it is listed; and no
  eligible sprint left out has a larger identifier than a selected one. A pattern that
  starts with literal characters matches only names that start with exactly these
  characters (anchored at the start, case-sensitive); \<^verbatim>\<open>"xs-ring3 Sprint 42"\<close> matches
  \<^verbatim>\<open>SPRINT_REGEX\<close> and \<^verbatim>\<open>"other-team Sprint 42"\<close> does not. With window 3 and eligible
  sprints of identifiers 10, 9, 8, 7, 6, listed in any order, the lookups are those of
  10, 9, 8.
\<close>

theorem retrieve_sprint_velocity_selects:
  "(sprints j b = Inr sps \<and> 0 \<le> window \<longrightarrow>
      (\<exists>selected.
          (\<exists>k \<le> length selected.
              requests (snd (retrieve_sprint_velocity rt j b sprint_regex window w))
                = requests w @ SprintsRequest b #
                    map (\<lambda>s. EstimateRequest b (id_of_sprint s)) (take k selected))
        \<and> ((\<forall>s \<in> set selected.
               found_or_missing (completedIssuesEstimateSum j b (id_of_sprint s))) \<longrightarrow>
             retrieve_sprint_velocity rt j b sprint_regex window w =
               (Return (avg_v rt (vels_of j b selected)),
                w\<lparr>requests := requests w @ SprintsRequest b #
                     map (\<lambda>s. EstimateRequest b (id_of_sprint s)) selected\<rparr>))
        \<and> (\<forall>s \<in> set selected. s \<in> set sps \<and> state s = ''CLOSED'' \<and>
              (case sprint_regex of None \<Rightarrow> True | Some p \<Rightarrow> re_match p (name s)))
        \<and> sorted (rev (map id_of_sprint selected))
        \<and> length selected = min (nat window) (length (eligible sprint_regex sps))
        \<and> mset selected \<subseteq># mset (eligible sprint_regex sps)
        \<and> (\<forall>s \<in> set selected. \<forall>t \<in># mset (eligible sprint_regex sps) - mset selected.
              id_of_sprint t \<le> id_of_sprint s)))
   \<and> (re_match (Bol # map (One \<circ> Lit) lits @ p) nm \<longrightarrow> take (length lits) nm = lits)
   \<and> re_match SPRINT_REGEX ''xs-ring3 Sprint 42''
   \<and> \<not> re_match SPRINT_REGEX ''other-team Sprint 42''
   \<and> (sprints j b = Inr sps' \<and> eligible sprint_regex sps' = sps'
        \<and> mset (map id_of_sprint sps') = mset [10, 9, 8, 7, 6]
        \<and> (\<forall>i \<in> {10, 9, 8}. found_or_missing (completedIssuesEstimateSum j b i)) \<longrightarrow>
        requests (snd (retrieve_sprint_velocity rt j b sprint_regex 3 w))
          = requests w @ [SprintsRequest b, EstimateRequest b 10, EstimateRequest b 9,
                          EstimateRequest b 8])"
proof -
  have sel: "\<exists>selected.
          (\<exists>k \<le> length selected.
              requests (snd (retrieve_sprint_velocity rt j b sprint_regex window w))
                = requests w @ SprintsRequest b #
                    map (\<lambda>s. EstimateRequest b (id_of_sprint s)) (take k selected))
        \<and> ((\<forall>s \<in> set selected.
               found_or_missing (completedIssuesEstimateSum j b (id_of_sprint s))) \<longrightarrow>
             retrieve_sprint_velocity rt j b sprint_regex window w =
               (Return (avg_v rt (vels_of j b selected)),
                w\<lparr>requests := requests w @ SprintsRequest b #
                     map (\<lambda>s. EstimateRequest b (id_of_sprint s)) selected\<rparr>))
        \<and> (\<forall>s \<in> set selected. s \<in> set sps \<and> state s = ''CLOSED'' \<and>
              (case sprint_regex of None \<Rightarrow> True | Some p \<Rightarrow> re_match p (name s)))
        \<and> sorted (rev (map id_of_sprint selected))
        \<and> length selected = min (nat window) (length (eligible sprint_regex sps))
        \<and> mset selected \<subseteq># mset (eligible sprint_regex sps)
        \<and> (\<forall>s \<in> set selected. \<forall>t \<in># mset (eligible sprint_regex sps) - mset selected.
              id_of_sprint t \<le> id_of_sprint s)"
    if l: "sprints j b = Inr sps" and n: "0 \<le> window"
  proof (intro exI[of _ "latest_completed sprint_regex window sps"] conjI)
    show "\<exists>k \<le> length (latest_completed sprint_regex window sps).
              requests (snd (retrieve_sprint_velocity rt j b sprint_regex window w))
                = requests w @ SprintsRequest b #
                    map (\<lambda>s. EstimateRequest b (id_of_sprint s))
                      (take k (latest_completed sprint_regex window sps))"
      using l by (rule retrieve_sprint_velocity_requests)
    show "(\<forall>s \<in> set (latest_completed sprint_regex window sps).
               found_or_missing (completedIssuesEstimateSum j b (id_of_sprint s))) \<longrightarrow>
             retrieve_sprint_velocity rt j b sprint_regex window w =
               (Return (avg_v rt (vels_of j b (latest_completed sprint_regex window sps))),
                w\<lparr>requests := requests w @ SprintsRequest b #
                     map (\<lambda>s. EstimateRequest b (id_of_sprint s))
                       (latest_completed sprint_regex window sps)\<rparr>)"
      using retrieve_sprint_velocity_ok[OF l] by blast
  qed (use latest_completed_top[OF n, of sprint_regex sps] in \<open>simp_all add: Let_def\<close>)
  have anchored: "re_match (Bol # map (One \<circ> Lit) lits @ p) nm \<longrightarrow> take (length lits) nm = lits"
    unfolding re_match_def match_from.simps(2) comp_def match_from_lits by auto
  have yes: "re_match SPRINT_REGEX ''xs-ring3 Sprint 42''"
    by (simp add: SPRINT_REGEX_iff)
  have no: "\<not> re_match SPRINT_REGEX ''other-team Sprint 42''"
    by (simp add: SPRINT_REGEX_iff)
  have ex: "requests (snd (retrieve_sprint_velocity rt j b sprint_regex 3 w))
          = requests w @ [SprintsRequest b, EstimateRequest b 10, EstimateRequest b 9,
                          EstimateRequest b 8]"
    if l: "sprints j b = Inr sps'" and e: "eligible sprint_regex sps' = sps'"
      and m: "mset (map id_of_sprint sps') = mset [10, 9, 8, 7, 6]"
      and f: "\<forall>i \<in> {10, 9, 8}. found_or_missing (completedIssuesEstimateSum j b i)"
  proof -
    have ids: "map id_of_sprint (latest_completed sprint_regex 3 sps') = [10, 9, 8]"
    proof -
      have "map id_of_sprint (latest_completed sprint_regex 3 sps')
              = take 3 (map id_of_sprint (sort_key (\<lambda>s. - id_of_sprint s) sps'))"
        by (simp add: latest_completed_eligible e slice_to_def take_map)
      then show ?thesis
        by (simp add: ids_example[OF m])
    qed
    have "\<forall>s \<in> set (latest_completed sprint_regex 3 sps'). id_of_sprint s \<in> {10, 9, 8}"
      using arg_cong[OF ids, of set] by auto
    then have ok: "\<forall>s \<in> set (latest_completed sprint_regex 3 sps').
                     found_or_missing (completedIssuesEstimateSum j b (id_of_sprint s))"
      using f by blast
    have "map (\<lambda>s. EstimateRequest b (id_of_sprint s)) (latest_completed sprint_regex 3 sps')
            = map (EstimateRequest b) (map id_of_sprint (latest_completed sprint_regex 3 sps'))"
      by simp
    then have "map (\<lambda>s. EstimateRequest b (id_of_sprint s)) (latest_completed sprint_regex 3 sps')
            = [EstimateRequest b 10, EstimateRequest b 9, EstimateRequest b 8]"
      unfolding ids by simp
    then show ?thesis
      using retrieve_sprint_velocity_ok[OF l ok, of rt w] by simp
  qed
  show ?thesis
    using sel anchored yes no ex by blast
qed


section \<open>What the queries leave untouched\<close>

lemma silentI:
  "(\<And>w. writes (snd (m w)) = writes w \<and> clock_reads (snd (m w)) = clock_reads w
          \<and> stdout (snd (m w)) = stdout w) \<Longrightarrow> silent m"
  by (simp add: silent_def)

lemma silentD:
  "silent m \<Longrightarrow> writes (snd (m w)) = writes w \<and> clock_reads (snd (m w)) = clock_reads w
          \<and> stdout (snd (m w)) = stdout w"
  by (simp add: silent_def)

lemma silent_and_then:
  assumes "silent m" and "\<And>a. silent (f a)"
  shows "silent (and_then m f)"
proof (rule silentI)
  fix w
  obtain res w1 where mw: "m w = (res, w1)" by (cases "m w") blast
  have k: "writes w1 = writes w \<and> clock_reads w1 = clock_reads w \<and> stdout w1 = stdout w"
    using silentD[OF assms(1), of w] mw by simp
  show "writes (snd (and_then m f w)) = writes w
        \<and> clock_reads (snd (and_then m f w)) = clock_reads w
        \<and> stdout (snd (and_then m f w)) = stdout w"
  proof (cases res)
    case (Return a)
    then show ?thesis
      using mw k silentD[OF assms(2), of a w1] by (simp add: and_then_def)
  next
    case (Raise e)
    then show ?thesis using mw k by (simp add: and_then_def)
  next
    case (Exit c)
    then show ?thesis using mw k by (simp add: and_then_def)
  qed
qed

lemma silent_return: "silent (\<lambda>w. (Return a, w))"
  by (simp add: silent_def)

lemma retrieve_issues_except_frame:
  "writes (snd (retrieve_issues_except e w)) = writes w"
  "clock_reads (snd (retrieve_issues_except e w)) = clock_reads w"
  "stdout (snd (retrieve_issues_except e w)) = stdout w"
  by (cases e; simp add: stderr_write_def)+

lemma silent_retrieve_issues: "silent (retrieve_issues j f fl lmt)"
proof (rule silentI)
  fix w
  show "writes (snd (retrieve_issues j f fl lmt w)) = writes w
        \<and> clock_reads (snd (retrieve_issues j f fl lmt w)) = clock_reads w
        \<and> stdout (snd (retrieve_issues j f fl lmt w)) = stdout w"
    by (simp add: retrieve_issues_def send_def Let_def retrieve_issues_except_frame
          split: sum.splits)
qed

lemma silent_retrieve_issue_count: "silent (retrieve_issue_count j f)"
  unfolding retrieve_issue_count_def
  by (intro silent_and_then silent_retrieve_issues silent_return)

lemma silent_retrieve_sum_of_field: "silent (retrieve_sum_of_field rt j f field)"
  unfolding retrieve_sum_of_field_def
  by (intro silent_and_then silent_retrieve_issues) (simp add: silent_def split: sum.splits)

lemma silent_retrieve_qrf: "silent (retrieve_qrf rt j)"
  unfolding retrieve_qrf_def
  by (intro silent_and_then silent_retrieve_sum_of_field silent_return)

lemma silent_retrieve_backlog_depth: "silent (retrieve_backlog_depth rt j)"
  unfolding retrieve_backlog_depth_def
  by (intro silent_and_then silent_retrieve_sum_of_field silent_return)

lemma silent_retrieve_sprint_burndown: "silent (retrieve_sprint_burndown rt j)"
  unfolding retrieve_sprint_burndown_def by (rule silent_retrieve_sum_of_field)

lemma collect_vels_frame:
  "writes (snd (collect_vels j b sel vels w)) = writes w
   \<and> clock_reads (snd (collect_vels j b sel vels w)) = clock_reads w
   \<and> stdout (snd (collect_vels j b sel vels w)) = stdout w"
proof (induction sel arbitrary: vels w)
  case Nil
  then show ?case by simp
next
  case (Cons s sel)
  show ?case
    by (cases "completedIssuesEstimateSum j b (id_of_sprint s)")
       (simp_all add: Cons.IH Let_def send_def)
qed

lemma silent_velocity_except: "silent (retrieve_sprint_velocity_except e)"
  by (cases e) (simp_all add: silent_def stderr_write_def)

lemma silent_retrieve_sprint_velocity: "silent (retrieve_sprint_velocity rt j b re n)"
proof (rule silentI)
  fix w
  show "writes (snd (retrieve_sprint_velocity rt j b re n w)) = writes w
        \<and> clock_reads (snd (retrieve_sprint_velocity rt j b re n w)) = clock_reads w
        \<and> stdout (snd (retrieve_sprint_velocity rt j b re n w)) = stdout w"
  proof (cases "sprints j b")
    case (Inl e)
    then show ?thesis
      using silentD[OF silent_velocity_except, of e "send (SprintsRequest b) w"]
      by (simp add: retrieve_sprint_velocity_def send_def)
  next
    case (Inr sps)
    obtain res w2 where c:
      "collect_vels j b (latest_completed re n sps) [] (send (SprintsRequest b) w) = (res, w2)"
      by (cases "collect_vels j b (latest_completed re n sps) [] (send (SprintsRequest b) w)") blast
    have k: "writes w2 = writes w \<and> clock_reads w2 = clock_reads w \<and> stdout w2 = stdout w"
      using collect_vels_frame[of j b "latest_completed re n sps" "[]" "send (SprintsRequest b) w"] c
      by (simp add: send_def)
    show ?thesis
      using Inr c k silentD[OF silent_velocity_except, of _ w2]
      by (cases res) (simp_all add: retrieve_sprint_velocity_def)
  qed
qed

lemma silent_jira_login: "silent (jira_login ev endpoint usr)"
proof (rule silentI)
  fix w
  show "writes (snd (jira_login ev endpoint usr w)) = writes w
        \<and> clock_reads (snd (jira_login ev endpoint usr w)) = clock_reads w
        \<and> stdout (snd (jira_login ev endpoint usr w)) = stdout w"
    by (simp add: jira_login_def Let_def stderr_write_def split: sum.splits exn.splits)
qed

lemma silent_count_queries: "silent (count_queries j qs vals)"
proof (induction qs arbitrary: vals)
  case Nil
  then show ?case by (simp add: silent_def)
next
  case (Cons q qs)
  obtain db_key jira_filter where q: "q = (db_key, jira_filter)" by (cases q) blast
  have "count_queries j (q # qs) vals =
          and_then (retrieve_issue_count j jira_filter)
            (\<lambda>n. count_queries j qs (setitem vals db_key (IntV n)))"
    by (rule ext) (simp add: q and_then_def split: prod.splits outcome.splits)
  then show ?case
    by (simp add: silent_and_then silent_retrieve_issue_count Cons.IH)
qed

lemma silent_collect_values: "silent (collect_values ev ar)"
  unfolding collect_values_def
  by (intro silent_and_then silent_jira_login silent_count_queries silent_retrieve_qrf
        silent_retrieve_backlog_depth silent_retrieve_sprint_burndown
        silent_retrieve_sprint_velocity silent_return)

section \<open>The run\<close>

lemma collect_values_chain:
  assumes "jira_login ev JIRA_ENDPOINT (user ar) w = (Return j, w1)"
    and "count_queries j (iteritems_queries ev COUNT_QUERIES) [] w1 = (Return v0, w2)"
    and "retrieve_qrf (python ev) j w2 = (Return qrf, w3)"
    and "retrieve_backlog_depth (python ev) j w3 = (Return bkl, w4)"
    and "retrieve_sprint_burndown (python ev) j w4 = (Return brn, w5)"
    and "retrieve_sprint_velocity (python ev) j SPRINT_BOARD_ID (Some SPRINT_REGEX) 3 w5 = (Return vel, w6)"
  shows "collect_values ev ar w =
           (Return (setitem (setitem (setitem (setitem v0
                      QRF_DB_KEY (NumV qrf))
                      BACKLOG_DEPTH_DB_KEY (NumV bkl))
                      SPRINT_BURNDOWN_DB_KEY (NumV brn))
                      SPRINT_VELOCITY_DB_KEY vel), w6)"
  using assms by (simp add: collect_values_def and_then_def)

lemma map_of_map_upd:
  "k \<in> fst ` set d \<Longrightarrow> map_of [(k', if k' = k then v else v'). (k', v') \<leftarrow> d] k = Some v"
  by (induction d) auto

lemma map_of_setitem: "map_of (setitem d k v) k = Some v"
proof (cases "k \<in> fst ` set d")
  case True
  then show ?thesis by (simp add: setitem_def map_of_map_upd)
next
  case False
  then have "map_of d k = None" by (simp add: map_of_eq_None_iff)
  then show ?thesis using False by (simp add: setitem_def map_add_def)
qed

lemma main_Return: "collect_values ev ar w = (Return vals, w') \<Longrightarrow> main ev ar w = report ev ar vals w'"
  by (simp add: main_def and_then_def)

text \<open>
  C3. When the sprint listing raises a tracker error of status 403, the velocity aggregator
  writes the warning to the error stream and returns the string \<^verbatim>\<open>"AUTH_ERROR"\<close>; and
  the run goes on: once the login and the earlier metrics have returned, \<^verbatim>\<open>main\<close>
  proceeds to its reporting part with \<^verbatim>\<open>"AUTH_ERROR"\<close> stored under the sprint-velocity
  key.
\<close>

theorem auth_error_sentinel:
  "(sprints j b = Inl (JIRAError 403 s r) \<longrightarrow>
      retrieve_sprint_velocity rt j b re n w =
        (Return (StrV ''AUTH_ERROR''),
         w\<lparr>requests := requests w @ [SprintsRequest b],
            stderr := stderr w @ [''warn: Auth error in retrieve_sprint_velocity'' @ [CHR 0x0A]]\<rparr>))
   \<and> (jira_login ev JIRA_ENDPOINT (user ar) w = (Return j, w1)
        \<and> count_queries j (iteritems_queries ev COUNT_QUERIES) [] w1 = (Return v0, w2)
        \<and> retrieve_qrf (python ev) j w2 = (Return qrf, w3)
        \<and> retrieve_backlog_depth (python ev) j w3 = (Return bkl, w4)
        \<and> retrieve_sprint_burndown (python ev) j w4 = (Return brn, w5)
        \<and> sprints j SPRINT_BOARD_ID = Inl (JIRAError 403 s r) \<longrightarrow>
      (\<exists>vals. main ev ar w =
          report ev ar vals
            (w5\<lparr>requests := requests w5 @ [SprintsRequest SPRINT_BOARD_ID],
                stderr := stderr w5 @ [''warn: Auth error in retrieve_sprint_velocity'' @ [CHR 0x0A]]\<rparr>)
        \<and> map_of vals SPRINT_VELOCITY_DB_KEY = Some (StrV ''AUTH_ERROR'')))"
proof -
  have a: "retrieve_sprint_velocity rt j b re n w =
        (Return (StrV ''AUTH_ERROR''),
         w\<lparr>requests := requests w @ [SprintsRequest b],
            stderr := stderr w @ [''warn: Auth error in retrieve_sprint_velocity'' @ [CHR 0x0A]]\<rparr>)"
    if "sprints j b = Inl (JIRAError 403 s r)"
    using that by (rule retrieve_sprint_velocity_403)
  have m: "\<exists>vals. main ev ar w =
          report ev ar vals
            (w5\<lparr>requests := requests w5 @ [SprintsRequest SPRINT_BOARD_ID],
                stderr := stderr w5 @ [''warn: Auth error in retrieve_sprint_velocity'' @ [CHR 0x0A]]\<rparr>)
        \<and> map_of vals SPRINT_VELOCITY_DB_KEY = Some (StrV ''AUTH_ERROR'')"
    if "jira_login ev JIRA_ENDPOINT (user ar) w = (Return j, w1)"
       "count_queries j (iteritems_queries ev COUNT_QUERIES) [] w1 = (Return v0, w2)"
       "retrieve_qrf (python ev) j w2 = (Return qrf, w3)"
       "retrieve_backlog_depth (python ev) j w3 = (Return bkl, w4)"
       "retrieve_sprint_burndown (python ev) j w4 = (Return brn, w5)"
       "sprints j SPRINT_BOARD_ID = Inl (JIRAError 403 s r)"
    using main_Return[OF collect_values_chain[OF that(1-5)
            retrieve_sprint_velocity_403[OF that(6), where rt = "python ev" and re = "Some SPRINT_REGEX"
              and n = 3 and w = w5]]]
      map_of_setitem
    by blast
  show ?thesis using a m by blast
qed

text \<open>
  C10. When the sprint listing raises a tracker error whose status is not 403, the
  velocity aggregator returns \<^verbatim>\<open>None\<close> and writes nothing to the error stream; once
  the login and the earlier metrics have returned, \<^verbatim>\<open>main\<close> proceeds to its reporting
  part with \<^verbatim>\<open>None\<close> stored under the sprint-velocity key.
\<close>

theorem other_tracker_error_none:
  "(sprints j b = Inl (JIRAError c s r) \<and> c \<noteq> 403 \<longrightarrow>
      retrieve_sprint_velocity rt j b re n w =
        (Return NoneV, w\<lparr>requests := requests w @ [SprintsRequest b]\<rparr>))
   \<and> (jira_login ev JIRA_ENDPOINT (user ar) w = (Return j, w1)
        \<and> count_queries j (iteritems_queries ev COUNT_QUERIES) [] w1 = (Return v0, w2)
        \<and> retrieve_qrf (python ev) j w2 = (Return qrf, w3)
        \<and> retrieve_backlog_depth (python ev) j w3 = (Return bkl, w4)
        \<and> retrieve_sprint_burndown (python ev) j w4 = (Return brn, w5)
        \<and> sprints j SPRINT_BOARD_ID = Inl (JIRAError c s r) \<and> c \<noteq> 403 \<longrightarrow>
      (\<exists>vals. main ev ar w =
          report ev ar vals (w5\<lparr>requests := requests w5 @ [SprintsRequest SPRINT_BOARD_ID]\<rparr>)
        \<and> map_of vals SPRINT_VELOCITY_DB_KEY = Some NoneV))"
proof -
  have a: "retrieve_sprint_velocity rt j b re n w =
        (Return NoneV, w\<lparr>requests := requests w @ [SprintsRequest b]\<rparr>)"
    if "sprints j b = Inl (JIRAError c s r)" "c \<noteq> 403"
    using that by (rule retrieve_sprint_velocity_not_403)
  have m: "\<exists>vals. main ev ar w =
          report ev ar vals (w5\<lparr>requests := requests w5 @ [SprintsRequest SPRINT_BOARD_ID]\<rparr>)
        \<and> map_of vals SPRINT_VELOCITY_DB_KEY = Some NoneV"
    if "jira_login ev JIRA_ENDPOINT (user ar) w = (Return j, w1)"
       "count_queries j (iteritems_queries ev COUNT_QUERIES) [] w1 = (Return v0, w2)"
       "retrieve_qrf (python ev) j w2 = (Return qrf, w3)"
       "retrieve_backlog_depth (python ev) j w3 = (Return bkl, w4)"
       "retrieve_sprint_burndown (python ev) j w4 = (Return brn, w5)"
       "sprints j SPRINT_BOARD_ID = Inl (JIRAError c s r)" "c \<noteq> 403"
    using main_Return[OF collect_values_chain[OF that(1-5)
            retrieve_sprint_velocity_not_403[OF that(6,7), where rt = "python ev"
              and re = "Some SPRINT_REGEX" and n = 3 and w = w5]]]
      map_of_setitem
    by blast
  show ?thesis using a m by blast
qed

lemma write_all_writes:
  "\<exists>kvs. writes (snd (write_all ev t d w)) = writes w @ map (\<lambda>(k, v). (DB_URI, k, v, t)) kvs
         \<and> clock_reads (snd (write_all ev t d w)) = clock_reads w
         \<and> stdout (snd (write_all ev t d w)) = stdout w"
proof (induction d arbitrary: w)
  case Nil
  have "writes (snd (write_all ev t [] w)) = writes w @ map (\<lambda>(k, v). (DB_URI, k, v, t)) []
        \<and> clock_reads (snd (write_all ev t [] w)) = clock_reads w
        \<and> stdout (snd (write_all ev t [] w)) = stdout w"
    by simp
  then show ?case by blast
next
  case (Cons kv d)
  obtain k v where kv: "kv = (k, v)" by (cases kv) blast
  define w1 where "w1 = w\<lparr>writes := writes w @ [(DB_URI, k, v, t)]\<rparr>"
  show ?case
  proof (cases "db_write ev DB_URI k v t")
    case (Return u)
    obtain kvs where "writes (snd (write_all ev t d w1)) = writes w1 @ map (\<lambda>(k, v). (DB_URI, k, v, t)) kvs"
      and "clock_reads (snd (write_all ev t d w1)) = clock_reads w1"
      and "stdout (snd (write_all ev t d w1)) = stdout w1"
      using Cons.IH[of w1] by blast
    then have "writes (snd (write_all ev t (kv # d) w))
                 = writes w @ map (\<lambda>(k, v). (DB_URI, k, v, t)) ((k, v) # kvs)
               \<and> clock_reads (snd (write_all ev t (kv # d) w)) = clock_reads w
               \<and> stdout (snd (write_all ev t (kv # d) w)) = stdout w"
      using Return by (simp add: kv w1_def)
    then show ?thesis by blast
  next
    case (Raise e)
    have "writes (snd (write_all ev t (kv # d) w))
                 = writes w @ map (\<lambda>(k, v). (DB_URI, k, v, t)) [(k, v)]
               \<and> clock_reads (snd (write_all ev t (kv # d) w)) = clock_reads w
               \<and> stdout (snd (write_all ev t (kv # d) w)) = stdout w"
      using Raise by (simp add: kv)
    then show ?thesis by blast
  next
    case (Exit c)
    have "writes (snd (write_all ev t (kv # d) w))
                 = writes w @ map (\<lambda>(k, v). (DB_URI, k, v, t)) [(k, v)]
               \<and> clock_reads (snd (write_all ev t (kv # d) w)) = clock_reads w
               \<and> stdout (snd (write_all ev t (kv # d) w)) = stdout w"
      using Exit by (simp add: kv)
    then show ?thesis by blast
  qed
qed

lemma write_all_ok:
  "(\<forall>(k, v) \<in> set d. db_write ev DB_URI k v t = Return ()) \<Longrightarrow>
     write_all ev t d w = (Return (), w\<lparr>writes := writes w @ map (\<lambda>(k, v). (DB_URI, k, v, t)) d\<rparr>)"
  by (induction d arbitrary: w) auto

lemma vels_of_skip:
  "completedIssuesEstimateSum j b (id_of_sprint s) = Inl KeyError \<Longrightarrow>
     vels_of j b (xs @ s # ys) = vels_of j b (xs @ ys)"
  by (simp add: vels_of_def)

text \<open>
  C4. A selected sprint whose estimate lookup raises the not-found error contributes
  nothing: the loop gives the same result with or without it, the aggregator returns what
  the remaining selected sprints give, and the lookups of the sprints after it are still
  requested.
\<close>

theorem not_found_skipped:
  "(completedIssuesEstimateSum j b (id_of_sprint s) = Inl KeyError \<longrightarrow>
      fst (collect_vels j b (xs @ s # ys) vels w) = fst (collect_vels j b (xs @ ys) vels w))
   \<and> (sprints j b = Inr sps \<and> latest_completed re n sps = xs @ s # ys
        \<and> completedIssuesEstimateSum j b (id_of_sprint s) = Inl KeyError \<longrightarrow>
      fst (retrieve_sprint_velocity rt j b re n w) =
        (case fst (collect_vels j b (xs @ ys) [] w) of
           Inl e \<Rightarrow> fst (retrieve_sprint_velocity_except e w)
         | Inr vs \<Rightarrow> Return (avg_v rt vs)))
   \<and> (sprints j b = Inr sps \<and> latest_completed re n sps = xs @ s # ys
        \<and> completedIssuesEstimateSum j b (id_of_sprint s) = Inl KeyError
        \<and> (\<forall>t \<in> set (xs @ ys). found_or_missing (completedIssuesEstimateSum j b (id_of_sprint t))) \<longrightarrow>
      retrieve_sprint_velocity rt j b re n w =
        (Return (avg_v rt (vels_of j b (xs @ ys))),
         w\<lparr>requests := requests w @ SprintsRequest b #
              map (\<lambda>t. EstimateRequest b (id_of_sprint t)) (xs @ s # ys)\<rparr>))"
proof -
  have a: "fst (collect_vels j b (xs @ s # ys) vels w) = fst (collect_vels j b (xs @ ys) vels w)"
    if "completedIssuesEstimateSum j b (id_of_sprint s) = Inl KeyError"
    using that by (rule collect_vels_skip)
  have b: "fst (retrieve_sprint_velocity rt j b re n w) =
        (case fst (collect_vels j b (xs @ ys) [] w) of
           Inl e \<Rightarrow> fst (retrieve_sprint_velocity_except e w)
         | Inr vs \<Rightarrow> Return (avg_v rt vs))"
    if "sprints j b = Inr sps" "latest_completed re n sps = xs @ s # ys"
       "completedIssuesEstimateSum j b (id_of_sprint s) = Inl KeyError"
    using retrieve_sprint_velocity_listed[OF that(1), where rt = rt and re = re and n = n and w = w]
      collect_vels_skip[OF that(3), of xs ys "[]" w]
    by (simp add: that(2))
  have c: "retrieve_sprint_velocity rt j b re n w =
        (Return (avg_v rt (vels_of j b (xs @ ys))),
         w\<lparr>requests := requests w @ SprintsRequest b #
              map (\<lambda>t. EstimateRequest b (id_of_sprint t)) (xs @ s # ys)\<rparr>)"
    if "sprints j b = Inr sps" "latest_completed re n sps = xs @ s # ys"
       "completedIssuesEstimateSum j b (id_of_sprint s) = Inl KeyError"
       "\<forall>t \<in> set (xs @ ys). found_or_missing (completedIssuesEstimateSum j b (id_of_sprint t))"
  proof -
    have "\<forall>t \<in> set (latest_completed re n sps).
            found_or_missing (completedIssuesEstimateSum j b (id_of_sprint t))"
      using that(3,4) by (auto simp: that(2) found_or_missing_def)
    from retrieve_sprint_velocity_ok[OF that(1) this, where rt = rt and w = w] show ?thesis
      by (simp add: that(2) vels_of_skip[OF that(3)])
  qed
  show ?thesis using a b c by blast
qed

text \<open>
  C8. In dry-run mode a run never calls the writer and never reads the clock, whatever
  the tracker answers, and it never falls off the end of \<^verbatim>\<open>main\<close>; once the values
  are collected it prints the mapping and exits with status 0.
\<close>

theorem dry_run_writes_nothing:
  "(dry_run ar \<longrightarrow>
      writes (snd (main ev ar w)) = writes w
      \<and> clock_reads (snd (main ev ar w)) = clock_reads w
      \<and> fst (main ev ar w) \<noteq> Return ())
   \<and> (dry_run ar \<and> collect_values ev ar w = (Return vals, w') \<longrightarrow>
        main ev ar w = (Exit 0, w'\<lparr>stdout := stdout w' @ [RetrievedValues vals]\<rparr>))"
proof -
  have b: "main ev ar w = (Exit 0, w'\<lparr>stdout := stdout w' @ [RetrievedValues vals]\<rparr>)"
    if "dry_run ar" "collect_values ev ar w = (Return vals, w')" for vals w'
    using that by (simp add: main_Return report_def)
  have a: "writes (snd (main ev ar w)) = writes w
      \<and> clock_reads (snd (main ev ar w)) = clock_reads w
      \<and> fst (main ev ar w) \<noteq> Return ()"
    if d: "dry_run ar"
  proof -
    obtain res w1 where c: "collect_values ev ar w = (res, w1)"
      by (cases "collect_values ev ar w") blast
    have k: "writes w1 = writes w \<and> clock_reads w1 = clock_reads w"
      using silentD[OF silent_collect_values, of ev ar w] c by simp
    show ?thesis
    proof (cases res)
      case (Return v)
      then show ?thesis using b[OF d, of v w1] c k by simp
    next
      case (Raise e)
      then show ?thesis using c k by (simp add: main_def and_then_def)
    next
      case (Exit x)
      then show ?thesis using c k by (simp add: main_def and_then_def)
    qed
  qed
  show ?thesis using a b by blast
qed

text \<open>
  C9. In a run that is not a dry run, every call of the writer carries the same
  timestamp, the first clock reading of the run truncated to seconds and multiplied by
  \<open>10\<^sup>9\<close>; the clock is read at most once, and exactly once in a run that writes.
  When every write succeeds, the run writes each pair of the dictionary once, in
  iteration order.
\<close>

theorem single_timestamp:
  "(\<not> dry_run ar \<longrightarrow>
      (\<exists>kvs. writes (snd (main ev ar w)) =
          writes w @ map (\<lambda>(k, v). (DB_URI, k, v, py_int (time_time ev (clock_reads w)) * 10 ^ 9)) kvs)
      \<and> clock_reads (snd (main ev ar w)) \<le> Suc (clock_reads w)
      \<and> (writes (snd (main ev ar w)) \<noteq> writes w \<longrightarrow>
           clock_reads (snd (main ev ar w)) = Suc (clock_reads w)))
   \<and> (\<not> dry_run ar \<and> collect_values ev ar w = (Return vals, w')
        \<and> (\<forall>(k, v) \<in> set (iteritems_values ev vals).
              db_write ev DB_URI k v (py_int (time_time ev (clock_reads w)) * 10 ^ 9) = Return ()) \<longrightarrow>
        main ev ar w =
          (Return (),
           w'\<lparr>clock_reads := Suc (clock_reads w'),
              writes := writes w' @
                map (\<lambda>(k, v). (DB_URI, k, v, py_int (time_time ev (clock_reads w)) * 10 ^ 9))
                  (iteritems_values ev vals)\<rparr>))"
proof -
  define T where "T = py_int (time_time ev (clock_reads w)) * 10 ^ 9"
  have b: "main ev ar w =
          (Return (),
           w'\<lparr>clock_reads := Suc (clock_reads w'),
              writes := writes w' @ map (\<lambda>(k, v). (DB_URI, k, v, T)) (iteritems_values ev vals)\<rparr>)"
    if "\<not> dry_run ar" "collect_values ev ar w = (Return vals, w')"
       "\<forall>(k, v) \<in> set (iteritems_values ev vals). db_write ev DB_URI k v T = Return ()"
  proof -
    have cw: "clock_reads w' = clock_reads w"
      using silentD[OF silent_collect_values, of ev ar w] that(2) by simp
    show ?thesis
      using that(1) write_all_ok[OF that(3), of "w'\<lparr>clock_reads := Suc (clock_reads w')\<rparr>"]
      by (simp add: main_Return[OF that(2)] report_def cw T_def Let_def)
  qed
  have a: "(\<exists>kvs. writes (snd (main ev ar w)) = writes w @ map (\<lambda>(k, v). (DB_URI, k, v, T)) kvs)
      \<and> clock_reads (snd (main ev ar w)) \<le> Suc (clock_reads w)
      \<and> (writes (snd (main ev ar w)) \<noteq> writes w \<longrightarrow>
           clock_reads (snd (main ev ar w)) = Suc (clock_reads w))"
    if d: "\<not> dry_run ar"
  proof -
    obtain res w1 where c: "collect_values ev ar w = (res, w1)"
      by (cases "collect_values ev ar w") blast
    have k: "writes w1 = writes w \<and> clock_reads w1 = clock_reads w"
      using silentD[OF silent_collect_values, of ev ar w] c by simp
    have none: "writes w = writes w @ map (\<lambda>(k, v). (DB_URI, k, v, T)) []"
      by simp
    show ?thesis
    proof (cases res)
      case (Return v)
      define w2 where "w2 = w1\<lparr>clock_reads := Suc (clock_reads w1)\<rparr>"
      have m: "main ev ar w = write_all ev T (iteritems_values ev v) w2"
        using d c Return k by (simp add: main_Return report_def T_def w2_def Let_def)
      obtain kvs where "writes (snd (write_all ev T (iteritems_values ev v) w2))
                          = writes w2 @ map (\<lambda>(k, v). (DB_URI, k, v, T)) kvs"
        and "clock_reads (snd (write_all ev T (iteritems_values ev v) w2)) = clock_reads w2"
        using write_all_writes[of ev T "iteritems_values ev v" w2] by blast
      then have "writes (snd (main ev ar w)) = writes w @ map (\<lambda>(k, v). (DB_URI, k, v, T)) kvs"
        and "clock_reads (snd (main ev ar w)) = Suc (clock_reads w)"
        using m k by (simp_all add: w2_def)
      then show ?thesis by auto
    next
      case (Raise e)
      then have "snd (main ev ar w) = w1"
        using c by (simp add: main_def and_then_def)
      then show ?thesis using k none by auto
    next
      case (Exit x)
      then have "snd (main ev ar w) = w1"
        using c by (simp add: main_def and_then_def)
      then show ?thesis using k none by auto
    qed
  qed
  show ?thesis using a b unfolding T_def by blast
qed



theorem not_found_skipped_witness:
  "sprints tracker 70 = Inr board_sprints
   \<and> latest_completed (Some SPRINT_REGEX) 3 board_sprints
       = [mk_sprint 10 ''xs-ring3 Sprint 10'' ''CLOSED'']
         @ mk_sprint 9 ''xs-ring3 Sprint 9'' ''CLOSED''
         # [mk_sprint 8 ''xs-ring3 Sprint 8'' ''CLOSED'']
   \<and> completedIssuesEstimateSum tracker 70 9 = Inl KeyError
   \<and> completedIssuesEstimateSum tracker 70 10 = Inr (41 / 2)
   \<and> completedIssuesEstimateSum tracker 70 8 = Inr (33 / 2)
   \<and> retrieve_sprint_velocity exact tracker 70 (Some SPRINT_REGEX) 3 world0 =
       (Return (NumV (37 / 2)),
        world0\<lparr>requests := [SprintsRequest 70, EstimateRequest 70 10, EstimateRequest 70 9,
                             EstimateRequest 70 8]\<rparr>)"
proof -
  define s10 where "s10 = mk_sprint 10 ''xs-ring3 Sprint 10'' ''CLOSED''"
  define s9 where "s9 = mk_sprint 9 ''xs-ring3 Sprint 9'' ''CLOSED''"
  define s8 where "s8 = mk_sprint 8 ''xs-ring3 Sprint 8'' ''CLOSED''"
  have s: "sprints tracker 70 = Inr board_sprints"
    by (simp add: tracker_def)
  have l: "latest_completed (Some SPRINT_REGEX) 3 board_sprints = [s10] @ s9 # [s8]"
    unfolding s10_def s9_def s8_def by code_simp
  have k: "completedIssuesEstimateSum tracker 70 (id_of_sprint s9) = Inl KeyError"
    by (simp add: tracker_def s9_def mk_sprint_def)
  have e10: "completedIssuesEstimateSum tracker 70 10 = Inr (41 / 2)"
    and e8: "completedIssuesEstimateSum tracker 70 8 = Inr (33 / 2)"
    by (simp_all add: tracker_def)
  have o: "\<forall>t \<in> set ([s10] @ [s8]).
             found_or_missing (completedIssuesEstimateSum tracker 70 (id_of_sprint t))"
    using e10 e8 by (simp add: s10_def s8_def mk_sprint_def found_or_missing_def)
  have v: "avg_v exact (vels_of tracker 70 ([s10] @ [s8])) = NumV (37 / 2)"
    using e10 e8
    by (simp add: vels_of_def s10_def s8_def mk_sprint_def avg_v_def py_sum_def exact_def
          round_decimal_def floor_eq_iff)
  show ?thesis
    using not_found_skipped[where j = tracker and b = 70 and s = s9 and xs = "[s10]"
        and ys = "[s8]" and w = world0 and sps = board_sprints and re = "Some SPRINT_REGEX"
        and n = 3 and rt = exact]
      s l k o v e10 e8
    by (simp add: s10_def s9_def s8_def mk_sprint_def world0_def)
qed

section \<open>An example run\<close>

lemma issue_count_example:
  assumes "filter_jql j = filter_jql tracker" and "search_issues j = search_issues tracker"
    and "f \<noteq> 404" and "f \<noteq> 400"
  shows "retrieve_issue_count j f w =
           (Return 3, w\<lparr>requests := requests w @
               [FilterRequest f, SearchRequest ''project = CA'' (MaxInt 1) ''key'']\<rparr>)"
proof -
  have "filter_jql j f = Inr ''project = CA''"
    using assms by (simp add: tracker_def)
  moreover have "\<exists>is. search_issues j ''project = CA'' (MaxInt 1) ''key'' = Inr \<lparr>issues = is, total = 3\<rparr>"
    using assms by (simp add: tracker_def Let_def)
  ultimately show ?thesis
    using retrieve_issues_Return[of j f "''project = CA''" "Some 1" "[KEY_FIELD]" _ w]
    by (auto simp: retrieve_issue_count_def and_then_def KEY_FIELD_def)
qed

lemma count_queries_example:
  assumes "filter_jql j = filter_jql tracker" and "search_issues j = search_issues tracker"
    and "404 \<notin> snd ` set qs" and "400 \<notin> snd ` set qs"
  shows "count_queries j qs vals w =
           (Return (foldl (\<lambda>d (k, f). setitem d k (IntV 3)) vals qs),
            w\<lparr>requests := requests w @
               concat (map (\<lambda>(k, f). [FilterRequest f, SearchRequest ''project = CA'' (MaxInt 1) ''key'']) qs)\<rparr>)"
  using assms(3,4)
proof (induction qs arbitrary: vals w)
  case Nil
  then show ?case by simp
next
  case (Cons q qs)
  obtain k f where q: "q = (k, f)" by (cases q) blast
  have f: "f \<noteq> 404" "f \<noteq> 400" using Cons.prems by (auto simp: q)
  have r: "404 \<notin> snd ` set qs" "400 \<notin> snd ` set qs" using Cons.prems by auto
  show ?case
    by (simp add: q issue_count_example[OF assms(1,2) f] Cons.IH[OF r])
qed

lemma counted_eq: "foldl (\<lambda>d (k, f). setitem d k (IntV 3)) [] (rev COUNT_QUERIES) = counted"
  by (simp add: COUNT_QUERIES_def counted_def setitem_def)

lemma sum_of_field_example:
  assumes "filter_jql j = filter_jql tracker" and "search_issues j = search_issues tracker"
    and "f \<noteq> 404" and "f \<noteq> 400"
  shows "retrieve_sum_of_field exact j f field w =
           (Return (if field = DRV_FIELD then 31 / 4 else 8),
            w\<lparr>requests := requests w @
               [FilterRequest f, SearchRequest ''project = CA'' MaxFalse field]\<rparr>)"
proof -
  define found where "found =
     (if field = DRV_FIELD
      then [\<lparr>key = ''CA-1'', issue_fields = [field \<mapsto> Some (11 / 2)]\<rparr>,
            \<lparr>key = ''CA-2'', issue_fields = [field \<mapsto> None]\<rparr>,
            \<lparr>key = ''CA-3'', issue_fields = [field \<mapsto> Some (9 / 4)]\<rparr>]
      else [\<lparr>key = ''CA-1'', issue_fields = [field \<mapsto> Some 5]\<rparr>,
            \<lparr>key = ''CA-2'', issue_fields = [field \<mapsto> None]\<rparr>,
            \<lparr>key = ''CA-3'', issue_fields = [field \<mapsto> Some 3]\<rparr>])"
  have fj: "filter_jql j f = Inr ''project = CA''"
    using assms by (simp add: tracker_def)
  have si: "search_issues j ''project = CA'' MaxFalse field = Inr \<lparr>issues = found, total = 3\<rparr>"
    using assms by (simp add: tracker_def Let_def found_def)
  have ri: "retrieve_issues j f [field] None w =
              (Return \<lparr>issues = found, total = 3\<rparr>,
               w\<lparr>requests := requests w @
                  [FilterRequest f, SearchRequest ''project = CA'' MaxFalse field]\<rparr>)"
    using retrieve_issues_Return[of j f "''project = CA''" None "[field]" _ w] fj si by simp
  have gf: "getattr_fields found field =
              Inr (if field = DRV_FIELD then [Some (11 / 2), None, Some (9 / 4)]
                   else [Some 5, None, Some 3])"
    by (simp add: found_def)
  have ps: "py_sum exact (concat (map (\<lambda>f. case f of None \<Rightarrow> [] | Some v \<Rightarrow> [v])
                (if field = DRV_FIELD then [Some (11 / 2), None, Some (9 / 4)]
                 else [Some 5, None, Some 3])))
            = (if field = DRV_FIELD then 31 / 4 else 8)"
    by (simp add: py_sum_def exact_def)
  show ?thesis
    unfolding retrieve_sum_of_field_def present_values and_then_def ri
    by (simp only: prod.case outcome.case result_list.select_convs gf sum.case ps)
qed

lemma example_prefix:
  assumes "filter_jql j = filter_jql tracker" and "search_issues j = search_issues tracker"
  shows "\<exists>w2 w3 w4 w5.
           jira_login (env_of j) JIRA_ENDPOINT (user (args_of d)) w = (Return j, w)
         \<and> count_queries j (iteritems_queries (env_of j) COUNT_QUERIES) [] w = (Return counted, w2)
         \<and> retrieve_qrf (python (env_of j)) j w2 = (Return (31 / 4), w3)
         \<and> retrieve_backlog_depth (python (env_of j)) j w3 = (Return 8, w4)
         \<and> retrieve_sprint_burndown (python (env_of j)) j w4 = (Return 8, w5)
         \<and> stdout w5 = stdout w \<and> writes w5 = writes w \<and> clock_reads w5 = clock_reads w
         \<and> stderr w5 = stderr w"
proof -
  have no: "404 \<notin> snd ` set (rev COUNT_QUERIES)" "400 \<notin> snd ` set (rev COUNT_QUERIES)"
    by (simp_all add: COUNT_QUERIES_def)
  have r3: "py_round exact (31 / 4) 3 = 31 / 4"
    by (simp add: exact_def round_decimal_def floor_eq_iff)
  have r2: "py_round exact 8 2 = 8"
    by (simp add: exact_def round_decimal_def floor_eq_iff)
  have py: "python (env_of j) = exact"
    by (simp add: env_of_def)
  have ne: "STORY_POINTS_FIELD \<noteq> DRV_FIELD"
    by (simp add: STORY_POINTS_FIELD_def DRV_FIELD_def)
  show ?thesis
    unfolding py
    using count_queries_example[OF assms no, of "[]"] sum_of_field_example[OF assms] r3 r2 ne
    by (simp add: jira_login_def env_of_def args_of_def counted_eq retrieve_qrf_def
          retrieve_backlog_depth_def retrieve_sprint_burndown_def and_then_def
          QRF_JIRA_FILTER_def BACKLOG_DEPTH_JIRA_FILTER_def SPRINT_BURNDOWN_JIRA_FILTER_def)
qed

lemma python_env_of: "python (env_of j) = exact"
  by (simp add: env_of_def)

lemma like_tracker:
  "filter_jql sprints_denied = filter_jql tracker" "search_issues sprints_denied = search_issues tracker"
  "filter_jql sprints_failing = filter_jql tracker" "search_issues sprints_failing = search_issues tracker"
  by (simp_all add: sprints_denied_def sprints_failing_def)

lemma velocity_example:
  "retrieve_sprint_velocity (python (env_of tracker)) tracker SPRINT_BOARD_ID (Some SPRINT_REGEX) 3 w =
     (Return (NumV (37 / 2)),
      w\<lparr>requests := requests w @ [SprintsRequest 70, EstimateRequest 70 10, EstimateRequest 70 9,
                                   EstimateRequest 70 8]\<rparr>)"
proof -
  have s: "sprints tracker 70 = Inr board_sprints"
    by (simp add: tracker_def)
  have f: "\<forall>s \<in> set (latest_completed (Some SPRINT_REGEX) 3 board_sprints).
             found_or_missing (completedIssuesEstimateSum tracker 70 (id_of_sprint s))"
    by code_simp
  have v: "avg_v exact (vels_of tracker 70 (latest_completed (Some SPRINT_REGEX) 3 board_sprints))
             = NumV (37 / 2)"
    by code_simp
  have m: "map (\<lambda>s. EstimateRequest 70 (id_of_sprint s))
             (latest_completed (Some SPRINT_REGEX) 3 board_sprints)
           = [EstimateRequest 70 10, EstimateRequest 70 9, EstimateRequest 70 8]"
    by code_simp
  show ?thesis
    unfolding SPRINT_BOARD_ID_def python_env_of retrieve_sprint_velocity_ok[OF s f, of exact w] v m
    by simp
qed

theorem retrieve_sprint_velocity_selects_witness:
  "sprints tracker 70 = Inr board_sprints \<and> (0::int) \<le> 3
   \<and> map id_of_sprint (eligible (Some SPRINT_REGEX) board_sprints) = [7, 10, 9, 6, 8]
   \<and> requests (snd (retrieve_sprint_velocity exact tracker 70 (Some SPRINT_REGEX) 3 world0))
        = [SprintsRequest 70, EstimateRequest 70 10, EstimateRequest 70 9, EstimateRequest 70 8]
   \<and> (\<exists>selected.
          map id_of_sprint selected = [10, 9, 8]
        \<and> retrieve_sprint_velocity exact tracker 70 (Some SPRINT_REGEX) 3 world0 =
             (Return (avg_v exact (vels_of tracker 70 selected)),
              world0\<lparr>requests := requests world0 @ SprintsRequest 70 #
                        map (\<lambda>s. EstimateRequest 70 (id_of_sprint s)) selected\<rparr>)
        \<and> sorted (rev (map id_of_sprint selected))
        \<and> length selected = min (nat 3) (length (eligible (Some SPRINT_REGEX) board_sprints))
        \<and> mset selected \<subseteq># mset (eligible (Some SPRINT_REGEX) board_sprints))
   \<and> sprints five_closed 70
        = Inr [mk_sprint 8 ''Sprint 8'' ''CLOSED'', mk_sprint 6 ''Sprint 6'' ''CLOSED'',
               mk_sprint 10 ''Sprint 10'' ''CLOSED'', mk_sprint 9 ''Sprint 9'' ''CLOSED'',
               mk_sprint 7 ''Sprint 7'' ''CLOSED'']
   \<and> requests (snd (retrieve_sprint_velocity exact five_closed 70 None 3 world0))
        = [SprintsRequest 70, EstimateRequest 70 10, EstimateRequest 70 9, EstimateRequest 70 8]"
proof -
  define five where "five = [mk_sprint 8 ''Sprint 8'' ''CLOSED'', mk_sprint 6 ''Sprint 6'' ''CLOSED'',
               mk_sprint 10 ''Sprint 10'' ''CLOSED'', mk_sprint 9 ''Sprint 9'' ''CLOSED'',
               mk_sprint 7 ''Sprint 7'' ''CLOSED'']"
  have l: "sprints tracker 70 = Inr board_sprints"
    by (simp add: tracker_def)
  have n: "(0::int) \<le> 3"
    by simp
  have el: "map id_of_sprint (eligible (Some SPRINT_REGEX) board_sprints) = [7, 10, 9, 6, 8]"
    by code_simp
  have all: "\<forall>s \<in> set board_sprints.
               found_or_missing (completedIssuesEstimateSum tracker 70 (id_of_sprint s))"
    by code_simp
  have rq: "requests (snd (retrieve_sprint_velocity exact tracker 70 (Some SPRINT_REGEX) 3 world0))
        = [SprintsRequest 70, EstimateRequest 70 10, EstimateRequest 70 9, EstimateRequest 70 8]"
    using velocity_example[of world0] by (simp add: python_env_of SPRINT_BOARD_ID_def world0_def)
  obtain selected where
        ok: "(\<forall>s \<in> set selected.
               found_or_missing (completedIssuesEstimateSum tracker 70 (id_of_sprint s))) \<longrightarrow>
             retrieve_sprint_velocity exact tracker 70 (Some SPRINT_REGEX) 3 world0 =
               (Return (avg_v exact (vels_of tracker 70 selected)),
                world0\<lparr>requests := requests world0 @ SprintsRequest 70 #
                     map (\<lambda>s. EstimateRequest 70 (id_of_sprint s)) selected\<rparr>)"
    and sub: "\<forall>s \<in> set selected. s \<in> set board_sprints \<and> state s = ''CLOSED'' \<and>
              (case Some SPRINT_REGEX of None \<Rightarrow> True | Some p \<Rightarrow> re_match p (name s))"
    and srt: "sorted (rev (map id_of_sprint selected))"
    and len: "length selected = min (nat 3) (length (eligible (Some SPRINT_REGEX) board_sprints))"
    and ms: "mset selected \<subseteq># mset (eligible (Some SPRINT_REGEX) board_sprints)"
    using retrieve_sprint_velocity_selects[where j = tracker and b = 70 and sps = board_sprints
        and window = 3 and rt = exact and sprint_regex = "Some SPRINT_REGEX" and w = world0] l n
    by blast
  have run: "retrieve_sprint_velocity exact tracker 70 (Some SPRINT_REGEX) 3 world0 =
               (Return (avg_v exact (vels_of tracker 70 selected)),
                world0\<lparr>requests := requests world0 @ SprintsRequest 70 #
                     map (\<lambda>s. EstimateRequest 70 (id_of_sprint s)) selected\<rparr>)"
    using ok sub all by blast
  have "map (\<lambda>s. EstimateRequest 70 (id_of_sprint s)) selected
          = map (EstimateRequest 70) [10, 9, 8]"
    using rq unfolding run by (simp add: world0_def)
  then have "map (EstimateRequest 70) (map id_of_sprint selected) = map (EstimateRequest 70) [10, 9, 8]"
    by (simp add: comp_def)
  then have ids: "map id_of_sprint selected = [10, 9, 8]"
    by (rule map_injective) (simp add: inj_on_def)
  have l5: "sprints five_closed 70 = Inr five"
    by (simp add: five_closed_def five_def)
  have e5: "eligible None five = five"
    by (simp add: eligible_def five_def mk_sprint_def)
  have m5: "mset (map id_of_sprint five) = mset [10, 9, 8, 7, 6]"
    by (simp add: five_def mk_sprint_def)
  have f5: "\<forall>i \<in> {10, 9, 8}. found_or_missing (completedIssuesEstimateSum five_closed 70 i)"
    by (simp add: five_closed_def tracker_def found_or_missing_def)
  have r5: "requests (snd (retrieve_sprint_velocity exact five_closed 70 None 3 world0))
        = [SprintsRequest 70, EstimateRequest 70 10, EstimateRequest 70 9, EstimateRequest 70 8]"
    using retrieve_sprint_velocity_selects[where j = five_closed and b = 70 and sps' = five
        and rt = exact and sprint_regex = None and w = world0] l5 e5 m5 f5
    by (simp add: world0_def)
  have ex: "\<exists>selected.
          map id_of_sprint selected = [10, 9, 8]
        \<and> retrieve_sprint_velocity exact tracker 70 (Some SPRINT_REGEX) 3 world0 =
             (Return (avg_v exact (vels_of tracker 70 selected)),
              world0\<lparr>requests := requests world0 @ SprintsRequest 70 #
                        map (\<lambda>s. EstimateRequest 70 (id_of_sprint s)) selected\<rparr>)
        \<and> sorted (rev (map id_of_sprint selected))
        \<and> length selected = min (nat 3) (length (eligible (Some SPRINT_REGEX) board_sprints))
        \<and> mset selected \<subseteq># mset (eligible (Some SPRINT_REGEX) board_sprints)"
    by (rule exI[of _ selected]) (intro conjI ids run srt len ms)
  show ?thesis
    by (intro conjI l n el rq ex l5[unfolded five_def] r5)
qed

theorem auth_error_sentinel_witness:
  "sprints sprints_denied SPRINT_BOARD_ID = Inl (JIRAError 403 ''Forbidden'' ''403: Forbidden'')
   \<and> retrieve_sprint_velocity exact sprints_denied 70 (Some SPRINT_REGEX) 3 world0 =
       (Return (StrV ''AUTH_ERROR''),
        world0\<lparr>requests := [SprintsRequest 70],
               stderr := [''warn: Auth error in retrieve_sprint_velocity'' @ [CHR 0x0A]]\<rparr>)
   \<and> fst (count_queries sprints_denied (iteritems_queries (env_of sprints_denied) COUNT_QUERIES) []
             world0) = Return counted
   \<and> fst (main (env_of sprints_denied) (args_of True) world0) = Exit 0
   \<and> stderr (snd (main (env_of sprints_denied) (args_of True) world0))
       = [''warn: Auth error in retrieve_sprint_velocity'' @ [CHR 0x0A]]
   \<and> (\<exists>vals. stdout (snd (main (env_of sprints_denied) (args_of True) world0))
                = [RetrievedValues vals]
             \<and> map_of vals SPRINT_VELOCITY_DB_KEY = Some (StrV ''AUTH_ERROR''))"
proof -
  define ev where "ev = env_of sprints_denied"
  have s: "sprints sprints_denied SPRINT_BOARD_ID = Inl (JIRAError 403 ''Forbidden'' ''403: Forbidden'')"
    by (simp add: sprints_denied_def)
  have v: "retrieve_sprint_velocity exact sprints_denied 70 (Some SPRINT_REGEX) 3 world0 =
       (Return (StrV ''AUTH_ERROR''),
        world0\<lparr>requests := [SprintsRequest 70],
               stderr := [''warn: Auth error in retrieve_sprint_velocity'' @ [CHR 0x0A]]\<rparr>)"
    using auth_error_sentinel[where j = sprints_denied and b = 70 and s = "''Forbidden''"
        and r = "''403: Forbidden''" and rt = exact and re = "Some SPRINT_REGEX" and n = 3
        and w = world0]
    by (simp add: sprints_denied_def world0_def)
  obtain w2 w3 w4 w5 where
        h1: "jira_login ev JIRA_ENDPOINT (user (args_of True)) world0 = (Return sprints_denied, world0)"
    and h2: "count_queries sprints_denied (iteritems_queries ev COUNT_QUERIES) [] world0
               = (Return counted, w2)"
    and h3: "retrieve_qrf (python ev) sprints_denied w2 = (Return (31 / 4), w3)"
    and h4: "retrieve_backlog_depth (python ev) sprints_denied w3 = (Return 8, w4)"
    and h5: "retrieve_sprint_burndown (python ev) sprints_denied w4 = (Return 8, w5)"
    and quiet: "stdout w5 = stdout world0" "stderr w5 = stderr world0"
    using example_prefix[OF like_tracker(1,2), of True world0] unfolding ev_def by blast
  have "jira_login ev JIRA_ENDPOINT (user (args_of True)) world0 = (Return sprints_denied, world0)
        \<and> count_queries sprints_denied (iteritems_queries ev COUNT_QUERIES) [] world0
               = (Return counted, w2)
        \<and> retrieve_qrf (python ev) sprints_denied w2 = (Return (31 / 4), w3)
        \<and> retrieve_backlog_depth (python ev) sprints_denied w3 = (Return 8, w4)
        \<and> retrieve_sprint_burndown (python ev) sprints_denied w4 = (Return 8, w5)
        \<and> sprints sprints_denied SPRINT_BOARD_ID = Inl (JIRAError 403 ''Forbidden'' ''403: Forbidden'')"
    using h1 h2 h3 h4 h5 s by simp
  with auth_error_sentinel[where j = sprints_denied and s = "''Forbidden''"
        and r = "''403: Forbidden''" and ev = ev and ar = "args_of True" and w = world0
        and ?w1.0 = world0 and ?v0.0 = counted and ?w2.0 = w2 and qrf = "31 / 4"
        and ?w3.0 = w3 and bkl = 8 and ?w4.0 = w4 and brn = 8 and ?w5.0 = w5]
  obtain vals where m: "main ev (args_of True) world0 =
          report ev (args_of True) vals
            (w5\<lparr>requests := requests w5 @ [SprintsRequest SPRINT_BOARD_ID],
                stderr := stderr w5 @ [''warn: Auth error in retrieve_sprint_velocity'' @ [CHR 0x0A]]\<rparr>)"
      and k: "map_of vals SPRINT_VELOCITY_DB_KEY = Some (StrV ''AUTH_ERROR'')"
    by blast
  have q0: "stdout w5 = []" "stderr w5 = []"
    using quiet by (simp_all add: world0_def)
  have dr: "dry_run (args_of True)"
    by (simp add: args_of_def)
  have "fst (main ev (args_of True) world0) = Exit 0"
    and "stderr (snd (main ev (args_of True) world0))
          = [''warn: Auth error in retrieve_sprint_velocity'' @ [CHR 0x0A]]"
    and "stdout (snd (main ev (args_of True) world0)) = [RetrievedValues vals]"
    using q0 dr by (simp_all add: m report_def)
  then show ?thesis
    using s v k h2 unfolding ev_def by auto
qed

lemma collected_eq:
  "setitem (setitem (setitem (setitem counted
      QRF_DB_KEY (NumV (31 / 4)))
      BACKLOG_DEPTH_DB_KEY (NumV 8))
      SPRINT_BURNDOWN_DB_KEY (NumV 8))
      SPRINT_VELOCITY_DB_KEY (NumV (37 / 2)) = collected"
  by (simp add: collected_def counted_def COUNT_QUERIES_def setitem_def QRF_DB_KEY_def
        BACKLOG_DEPTH_DB_KEY_def SPRINT_BURNDOWN_DB_KEY_def SPRINT_VELOCITY_DB_KEY_def)

lemma collect_values_example:
  "\<exists>w'. collect_values (env_of tracker) (args_of d) w = (Return collected, w')
        \<and> stdout w' = stdout w \<and> writes w' = writes w \<and> clock_reads w' = clock_reads w"
proof -
  obtain w2 w3 w4 w5 where
        h1: "jira_login (env_of tracker) JIRA_ENDPOINT (user (args_of d)) w = (Return tracker, w)"
    and h2: "count_queries tracker (iteritems_queries (env_of tracker) COUNT_QUERIES) [] w
               = (Return counted, w2)"
    and h3: "retrieve_qrf (python (env_of tracker)) tracker w2 = (Return (31 / 4), w3)"
    and h4: "retrieve_backlog_depth (python (env_of tracker)) tracker w3 = (Return 8, w4)"
    and h5: "retrieve_sprint_burndown (python (env_of tracker)) tracker w4 = (Return 8, w5)"
    and quiet: "stdout w5 = stdout w" "writes w5 = writes w" "clock_reads w5 = clock_reads w"
    using example_prefix[of tracker d w] by auto
  show ?thesis
    unfolding collected_eq[symmetric]
    using collect_values_chain[OF h1 h2 h3 h4 h5 velocity_example[of w5]] quiet
    by simp
qed

theorem other_tracker_error_none_witness:
  "sprints sprints_failing SPRINT_BOARD_ID = Inl (JIRAError 500 ''Server Error'' ''500: Server Error'')
   \<and> retrieve_sprint_velocity exact sprints_failing 70 (Some SPRINT_REGEX) 3 world0 =
       (Return NoneV, world0\<lparr>requests := [SprintsRequest 70]\<rparr>)
   \<and> fst (count_queries sprints_failing (iteritems_queries (env_of sprints_failing) COUNT_QUERIES) []
             world0) = Return counted
   \<and> fst (main (env_of sprints_failing) (args_of True) world0) = Exit 0
   \<and> stderr (snd (main (env_of sprints_failing) (args_of True) world0)) = []
   \<and> (\<exists>vals. stdout (snd (main (env_of sprints_failing) (args_of True) world0))
                = [RetrievedValues vals]
             \<and> map_of vals SPRINT_VELOCITY_DB_KEY = Some NoneV)"
proof -
  define ev where "ev = env_of sprints_failing"
  have s: "sprints sprints_failing SPRINT_BOARD_ID
             = Inl (JIRAError 500 ''Server Error'' ''500: Server Error'')"
    and n: "(500::int) \<noteq> 403"
    by (simp_all add: sprints_failing_def)
  have v: "retrieve_sprint_velocity exact sprints_failing 70 (Some SPRINT_REGEX) 3 world0 =
       (Return NoneV, world0\<lparr>requests := [SprintsRequest 70]\<rparr>)"
    using other_tracker_error_none[where j = sprints_failing and b = 70 and c = 500
        and s = "''Server Error''" and r = "''500: Server Error''" and rt = exact
        and re = "Some SPRINT_REGEX" and n = 3 and w = world0]
    by (simp add: sprints_failing_def world0_def)
  obtain w2 w3 w4 w5 where
        h1: "jira_login ev JIRA_ENDPOINT (user (args_of True)) world0 = (Return sprints_failing, world0)"
    and h2: "count_queries sprints_failing (iteritems_queries ev COUNT_QUERIES) [] world0
               = (Return counted, w2)"
    and h3: "retrieve_qrf (python ev) sprints_failing w2 = (Return (31 / 4), w3)"
    and h4: "retrieve_backlog_depth (python ev) sprints_failing w3 = (Return 8, w4)"
    and h5: "retrieve_sprint_burndown (python ev) sprints_failing w4 = (Return 8, w5)"
    and quiet: "stdout w5 = stdout world0" "stderr w5 = stderr world0"
    using example_prefix[OF like_tracker(3,4), of True world0] unfolding ev_def by blast
  have "jira_login ev JIRA_ENDPOINT (user (args_of True)) world0 = (Return sprints_failing, world0)
        \<and> count_queries sprints_failing (iteritems_queries ev COUNT_QUERIES) [] world0
               = (Return counted, w2)
        \<and> retrieve_qrf (python ev) sprints_failing w2 = (Return (31 / 4), w3)
        \<and> retrieve_backlog_depth (python ev) sprints_failing w3 = (Return 8, w4)
        \<and> retrieve_sprint_burndown (python ev) sprints_failing w4 = (Return 8, w5)
        \<and> sprints sprints_failing SPRINT_BOARD_ID
             = Inl (JIRAError 500 ''Server Error'' ''500: Server Error'') \<and> (500::int) \<noteq> 403"
    using h1 h2 h3 h4 h5 s n by simp
  with other_tracker_error_none[where j = sprints_failing and c = 500 and s = "''Server Error''"
        and r = "''500: Server Error''" and ev = ev and ar = "args_of True" and w = world0
        and ?w1.0 = world0 and ?v0.0 = counted and ?w2.0 = w2 and qrf = "31 / 4"
        and ?w3.0 = w3 and bkl = 8 and ?w4.0 = w4 and brn = 8 and ?w5.0 = w5]
  obtain vals where m: "main ev (args_of True) world0 =
          report ev (args_of True) vals
            (w5\<lparr>requests := requests w5 @ [SprintsRequest SPRINT_BOARD_ID]\<rparr>)"
      and k: "map_of vals SPRINT_VELOCITY_DB_KEY = Some NoneV"
    by blast
  have q0: "stdout w5 = []" "stderr w5 = []"
    using quiet by (simp_all add: world0_def)
  have dr: "dry_run (args_of True)"
    by (simp add: args_of_def)
  have "fst (main ev (args_of True) world0) = Exit 0"
    and "stderr (snd (main ev (args_of True) world0)) = []"
    and "stdout (snd (main ev (args_of True) world0)) = [RetrievedValues vals]"
    using q0 dr by (simp_all add: m report_def)
  then show ?thesis
    using s v k h2 unfolding ev_def by auto
qed

theorem dry_run_writes_nothing_witness:
  "dry_run (args_of True)
   \<and> fst (collect_values (env_of tracker) (args_of True) world0) = Return collected
   \<and> fst (main (env_of tracker) (args_of True) world0) = Exit 0
   \<and> stdout (snd (main (env_of tracker) (args_of True) world0)) = [RetrievedValues collected]
   \<and> writes (snd (main (env_of tracker) (args_of True) world0)) = []
   \<and> clock_reads (snd (main (env_of tracker) (args_of True) world0)) = 0"
proof -
  have dr: "dry_run (args_of True)"
    by (simp add: args_of_def)
  obtain w' where c: "collect_values (env_of tracker) (args_of True) world0 = (Return collected, w')"
    and q: "stdout w' = stdout world0" "writes w' = writes world0"
           "clock_reads w' = clock_reads world0"
    using collect_values_example[of True world0] by blast
  have z: "stdout world0 = []" "writes world0 = []" "clock_reads world0 = 0"
    by (simp_all add: world0_def)
  show ?thesis
    using dry_run_writes_nothing[of "args_of True" "env_of tracker" world0 collected w'] dr c q z
    by simp
qed

theorem single_timestamp_witness:
  "\<not> dry_run (args_of False)
   \<and> fst (collect_values (env_of tracker) (args_of False) world0) = Return collected
   \<and> py_int (time_time (env_of tracker) (clock_reads world0)) * 10 ^ 9 = 1478268000000000000
   \<and> fst (main (env_of tracker) (args_of False) world0) = Return ()
   \<and> writes (snd (main (env_of tracker) (args_of False) world0))
       = map (\<lambda>(k, v). (DB_URI, k, v, 1478268000000000000)) (rev collected)
   \<and> clock_reads (snd (main (env_of tracker) (args_of False) world0)) = 1"
proof -
  have dr: "\<not> dry_run (args_of False)"
    by (simp add: args_of_def)
  obtain w' where c: "collect_values (env_of tracker) (args_of False) world0 = (Return collected, w')"
    and q: "writes w' = writes world0" "clock_reads w' = clock_reads world0"
    using collect_values_example[of False world0] by blast
  have z: "writes world0 = []" "clock_reads world0 = 0"
    by (simp_all add: world0_def)
  have t: "py_int (time_time (env_of tracker) (clock_reads world0)) * 10 ^ 9 = 1478268000000000000"
    by (simp add: env_of_def world0_def py_int_def floor_eq_iff)
  have ok: "\<forall>(k, v) \<in> set (iteritems_values (env_of tracker) collected).
              db_write (env_of tracker) DB_URI k v
                (py_int (time_time (env_of tracker) (clock_reads world0)) * 10 ^ 9) = Return ()"
    by (simp add: env_of_def)
  have it: "iteritems_values (env_of tracker) collected = rev collected"
    by (simp add: env_of_def)
  show ?thesis
    using single_timestamp[of "args_of False" "env_of tracker" world0 collected w'] dr c ok
    unfolding t it by (simp add: q z)
qed

end
